theory Spec2Isabelle
  imports Complex_Main
begin

section \<open>Exceptions\<close>

text \<open>
  Python exceptions as values. \<open>ValueError\<close> and \<open>OtherException\<close> are subclasses of
  \<open>Exception\<close> (HTTP, Redis, database, MLflow and file-system errors are all
  \<open>OtherException\<close>); \<open>SystemExit\<close> derives from \<open>BaseException\<close> only, so a handler
  \<open>except Exception\<close> does not catch it.
\<close>

datatype exc = ValueError string | OtherException string | SystemExit string

fun is_Exception :: "exc \<Rightarrow> bool" where
  "is_Exception (ValueError m) = True"
| "is_Exception (OtherException m) = True"
| "is_Exception (SystemExit m) = False"

fun str_exc :: "exc \<Rightarrow> string" where
  "str_exc (ValueError m) = m"
| "str_exc (OtherException m) = m"
| "str_exc (SystemExit m) = m"

section \<open>Notebook contract validator (core/notebook_parser.py)\<close>

text \<open>
  A parsed notebook is a JSON dictionary. Every key the parser reads with
  \<open>dict.get(key, default)\<close> is an optional field here, \<open>None\<close> for an absent key.
  The \<open>source\<close> of a cell is either a list of lines or a single string.
\<close>

datatype cell_source = SourceLines "string list" | SourceStr string

record cell_metadata =
  md_tags :: "string list option"

record cell =
  c_cell_type :: string
  c_metadata :: "cell_metadata option"
  c_source :: "cell_source option"

record notebook =
  nb_cells :: "cell list option"

definition REQUIRED_TAGS :: "string list" where
  "REQUIRED_TAGS = [''mlops:config'', ''mlops:preprocessing'', ''mlops:training'', ''mlops:export'']"

definition cell_tags :: "cell \<Rightarrow> string list" where
  "cell_tags c =
     (case c_metadata c of
        None \<Rightarrow> []
      | Some metadata \<Rightarrow> (case md_tags metadata of None \<Rightarrow> [] | Some ts \<Rightarrow> ts))"

definition get_cells_by_tag :: "notebook \<Rightarrow> string \<Rightarrow> cell list" where
  "get_cells_by_tag nb tag =
     filter (\<lambda>c. tag \<in> set (cell_tags c)) (case nb_cells nb of None \<Rightarrow> [] | Some cs \<Rightarrow> cs)"

text \<open>\<open>sep.join(xs)\<close> of Python.\<close>

fun join :: "string \<Rightarrow> string list \<Rightarrow> string" where
  "join sep [] = []"
| "join sep [x] = x"
| "join sep (x # y # ys) = x @ sep @ join sep (y # ys)"

text \<open>The loop of \<open>validate_required_tags\<close>: one pass over the tags, appending each tag
  that no cell carries.\<close>

fun missing_loop :: "notebook \<Rightarrow> string list \<Rightarrow> string list \<Rightarrow> string list" where
  "missing_loop nb [] missing = missing"
| "missing_loop nb (tag # tags) missing =
     missing_loop nb tags (if get_cells_by_tag nb tag = [] then missing @ [tag] else missing)"

definition missing_tags_msg :: "string list \<Rightarrow> string" where
  "missing_tags_msg missing =
     ''Notebook is missing required MLOps tags: '' @ join '', '' missing @ ''. '' @
     ''Each cell must have metadata.tags containing the appropriate '' @
     ''mlops:* tag. Required tags: '' @ join '', '' REQUIRED_TAGS"

definition validate_required_tags :: "notebook \<Rightarrow> exc + unit" where
  "validate_required_tags nb =
     (let missing = missing_loop nb REQUIRED_TAGS []
      in if missing \<noteq> [] then Inl (ValueError (missing_tags_msg missing)) else Inr ())"

subsection \<open>The config scan\<close>

text \<open>
  \<open>extract_config\<close> searches the source text with the regular expressions
  \<^verbatim>\<open>MODEL_NAME\s*=\s*['"]([^'"]+)['"]\<close> and \<^verbatim>\<open>VERSION\s*=\s*['"]([^'"]+)['"]\<close>.
  \<open>match_at key s\<close> is the attempt of the regular expression engine to match the pattern
  for \<open>key\<close> at the start of \<open>s\<close>, returning group 1; \<open>re_search\<close> tries every start
  position from left to right, as \<open>re.search\<close> does. A character stands for a code
  point below 256; \<open>is_space\<close> is the class \<^verbatim>\<open>\s\<close> of a Python \<open>str\<close> pattern
  on these code points.
\<close>

definition is_space :: "char \<Rightarrow> bool" where
  "is_space c \<longleftrightarrow>
     c \<in> set [CHR 0x20, CHR 0x09, CHR 0x0A, CHR 0x0B, CHR 0x0C, CHR 0x0D,
              CHR 0x1C, CHR 0x1D, CHR 0x1E, CHR 0x1F, CHR 0x85, CHR 0xA0]"

definition is_quote :: "char \<Rightarrow> bool" where
  "is_quote c \<longleftrightarrow> c = CHR 0x27 \<or> c = CHR 0x22"

fun strip_prefix :: "string \<Rightarrow> string \<Rightarrow> string option" where
  "strip_prefix [] s = Some s"
| "strip_prefix (k # ks) [] = None"
| "strip_prefix (k # ks) (c # cs) = (if k = c then strip_prefix ks cs else None)"

definition match_at :: "string \<Rightarrow> string \<Rightarrow> string option" where
  "match_at key s =
     (case strip_prefix key s of
        None \<Rightarrow> None
      | Some r1 \<Rightarrow>
          (case dropWhile is_space r1 of
             [] \<Rightarrow> None
           | e # r2 \<Rightarrow>
               if e \<noteq> CHR ''='' then None
               else (case dropWhile is_space r2 of
                       [] \<Rightarrow> None
                     | q # r3 \<Rightarrow>
                         if \<not> is_quote q then None
                         else (let v = takeWhile (\<lambda>c. \<not> is_quote c) r3;
                                   r4 = dropWhile (\<lambda>c. \<not> is_quote c) r3
                               in if v \<noteq> [] \<and> r4 \<noteq> [] then Some v else None))))"

fun re_search :: "string \<Rightarrow> string \<Rightarrow> string option" where
  "re_search key [] = match_at key []"
| "re_search key (c # cs) =
     (case match_at key (c # cs) of Some v \<Rightarrow> Some v | None \<Rightarrow> re_search key cs)"

record config =
  cfg_model_name :: string
  cfg_version :: string

text \<open>\<open>"".join(cells[0].get("source", []))\<close>, replaced by the source itself when it is a
  string (joining the characters of a string gives the string back).\<close>

definition cell_source_text :: "cell \<Rightarrow> string" where
  "cell_source_text c =
     (case c_source c of
        None \<Rightarrow> []
      | Some (SourceLines ls) \<Rightarrow> concat ls
      | Some (SourceStr s) \<Rightarrow> s)"

definition extract_config :: "notebook \<Rightarrow> exc + config" where
  "extract_config nb =
     (case get_cells_by_tag nb ''mlops:config'' of
        [] \<Rightarrow> Inl (ValueError ''No cell with tag 'mlops:config' found in notebook.'')
      | c # cs \<Rightarrow>
          (let source = cell_source_text c;
               model_name_match = re_search ''MODEL_NAME'' source;
               version_match = re_search ''VERSION'' source;
               model_name = (case model_name_match of Some v \<Rightarrow> v | None \<Rightarrow> ''default-model'');
               version = (case version_match of Some v \<Rightarrow> v | None \<Rightarrow> ''1'')
           in Inr \<lparr>cfg_model_name = model_name, cfg_version = version\<rparr>))"


text \<open>
  The declarative reading of the two regular expressions: \<open>assign_form key s v\<close> says that
  \<open>s\<close> starts with \<open>key\<close>, optional white space, \<open>=\<close>, optional white space, a quote
  of either style, the non-empty quote-free text \<open>v\<close> and a quote of either style.
  \<open>first_assignment\<close> is the leftmost such occurrence in a text, \<open>no_assignment\<close> the
  absence of any.
\<close>

definition assign_form :: "string \<Rightarrow> string \<Rightarrow> string \<Rightarrow> bool" where
  "assign_form key s v \<longleftrightarrow>
     (\<exists>ws1 ws2 q1 q2 rest.
        s = key @ ws1 @ ''='' @ ws2 @ [q1] @ v @ [q2] @ rest \<and>
        (\<forall>c \<in> set ws1. is_space c) \<and> (\<forall>c \<in> set ws2. is_space c) \<and>
        is_quote q1 \<and> is_quote q2 \<and> v \<noteq> [] \<and> (\<forall>c \<in> set v. \<not> is_quote c))"

definition first_assignment :: "string \<Rightarrow> string \<Rightarrow> string \<Rightarrow> bool" where
  "first_assignment key src v \<longleftrightarrow>
     (\<exists>pre suf. src = pre @ suf \<and> assign_form key suf v \<and>
        (\<forall>pre' suf' v'. src = pre' @ suf' \<and> length pre' < length pre
            \<longrightarrow> \<not> assign_form key suf' v'))"

definition no_assignment :: "string \<Rightarrow> string \<Rightarrow> bool" where
  "no_assignment key src \<longleftrightarrow> (\<forall>pre suf v. src = pre @ suf \<longrightarrow> \<not> assign_form key suf v)"

section \<open>Model server (model-server/server.py)\<close>

text \<open>
  A loaded model is an opaque object with a \<open>predict\<close> method. Calling it either raises
  (\<open>Inl\<close> the message) or returns a prediction object; turning that object into the list
  of the response (\<open>tolist()\<close>, or \<open>list(...)\<close> when there is no such method, and the
  construction of the response) again either raises or gives the list.
\<close>

datatype http_error = HTTPException nat string

datatype 'p prediction = Prediction (to_list: "string + 'p list")

record 'p model_entry =
  me_model :: "real list list \<Rightarrow> string + 'p prediction"
  me_model_name :: string
  me_version :: string
  me_mlflow_run_id :: string
  me_loaded_at :: nat
  me_request_count :: nat

type_synonym 'p registry = "string \<rightharpoonup> 'p model_entry"

record 'p predict_response =
  pr_prediction :: "'p list"
  pr_model_name :: string
  pr_version :: string

record load_model_request =
  lr_mlflow_run_id :: string
  lr_version :: string

text \<open>What \<open>load_model\<close> asks of MLflow, the file system and joblib; every call may raise.\<close>

record 'p load_env =
  download_artifacts :: "string \<Rightarrow> string + string"
  path_is_dir :: "string \<Rightarrow> string + bool"
  glob_joblib :: "string \<Rightarrow> string + string list"
  iterdir :: "string \<Rightarrow> string + string list"
  joblib_load :: "string \<Rightarrow> string + (real list list \<Rightarrow> string + 'p prediction)"
  load_time :: nat

text \<open>The body of the \<open>try\<close> block of \<open>load_model\<close> up to the registry assignment.\<close>

definition locate_and_load ::
  "'p load_env \<Rightarrow> load_model_request \<Rightarrow> string + (real list list \<Rightarrow> string + 'p prediction)" where
  "locate_and_load env body =
     (case download_artifacts env (lr_mlflow_run_id body) of
        Inl m \<Rightarrow> Inl m
      | Inr local_path \<Rightarrow>
          (case path_is_dir env local_path of
             Inl m \<Rightarrow> Inl m
           | Inr False \<Rightarrow> joblib_load env local_path
           | Inr True \<Rightarrow>
               (case glob_joblib env local_path of
                  Inl m \<Rightarrow> Inl m
                | Inr (f # fs) \<Rightarrow> joblib_load env f
                | Inr [] \<Rightarrow>
                    (case iterdir env local_path of
                       Inl m \<Rightarrow> Inl m
                     | Inr (f # fs) \<Rightarrow> joblib_load env f
                     | Inr [] \<Rightarrow> Inl (''No model files in '' @ local_path)))))"

definition load_model ::
  "'p load_env \<Rightarrow> 'p registry \<Rightarrow> string \<Rightarrow> load_model_request
     \<Rightarrow> (http_error + string) \<times> 'p registry" where
  "load_model env models model_name body =
     (case locate_and_load env body of
        Inl m \<Rightarrow> (Inl (HTTPException 500 (''Failed to load model: '' @ m)), models)
      | Inr model \<Rightarrow>
          (Inr (''Model '' @ [CHR 0x27] @ model_name @ [CHR 0x27] @ '' v'' @ lr_version body
                  @ '' loaded successfully.''),
           models(model_name \<mapsto>
             \<lparr>me_model = model, me_model_name = model_name, me_version = lr_version body,
              me_mlflow_run_id = lr_mlflow_run_id body, me_loaded_at = load_time env,
              me_request_count = 0\<rparr>)))"

definition predict ::
  "'p registry \<Rightarrow> string \<Rightarrow> real list list
     \<Rightarrow> (http_error + 'p predict_response) \<times> 'p registry" where
  "predict models model_name data =
     (case models model_name of
        None \<Rightarrow>
          (Inl (HTTPException 404
                  (''Model '' @ [CHR 0x27] @ model_name @ [CHR 0x27] @ '' is not loaded.'')),
           models)
      | Some entry \<Rightarrow>
          (case me_model entry data of
             Inl m \<Rightarrow> (Inl (HTTPException 500 (''Prediction failed: '' @ m)), models)
           | Inr prediction \<Rightarrow>
               (let models' = models(model_name \<mapsto>
                                entry\<lparr>me_request_count := me_request_count entry + 1\<rparr>)
                in case to_list prediction of
                     Inl m \<Rightarrow> (Inl (HTTPException 500 (''Prediction failed: '' @ m)), models')
                   | Inr result \<Rightarrow>
                       (Inr \<lparr>pr_prediction = result, pr_model_name = model_name,
                             pr_version = me_version entry\<rparr>, models'))))"

definition delete_model :: "'p registry \<Rightarrow> string \<Rightarrow> (http_error + string) \<times> 'p registry" where
  "delete_model models model_name =
     (case models model_name of
        None \<Rightarrow>
          (Inl (HTTPException 404
                  (''Model '' @ [CHR 0x27] @ model_name @ [CHR 0x27] @ '' is not loaded.'')),
           models)
      | Some entry \<Rightarrow>
          (Inr (''Model '' @ [CHR 0x27] @ model_name @ [CHR 0x27] @ '' unloaded.''),
           models(model_name := None)))"

text \<open>Every entry is stored under its own name: \<open>load_model\<close>, the only writer of the
  registry, builds the entry from the key it assigns.\<close>

definition registry_names_ok :: "'p registry \<Rightarrow> bool" where
  "registry_names_ok models \<longleftrightarrow>
     (\<forall>n entry. models n = Some entry \<longrightarrow> me_model_name entry = n)"


section \<open>Pipeline task (tasks/celery_tasks.py)\<close>

subsection \<open>Data\<close>

text \<open>
  A metric value is a float read back from MLflow or the boolean \<open>deployed\<close>. Floats are
  modelled by the reals: the task only compares the accuracy with the threshold.
  Timestamps are natural numbers read from a clock.
\<close>

datatype mval = MFloat real | MBool bool

type_synonym metrics = "string \<rightharpoonup> mval"

fun mval_num :: "mval \<Rightarrow> real" where
  "mval_num (MFloat a) = a"
| "mval_num (MBool b) = (if b then 1 else 0)"

record phase_entry =
  pe_name :: string
  pe_status :: string
  pe_timestamp :: nat
  pe_logs :: string

record phase_event =
  ev_pipeline_id :: string
  ev_phase :: string
  ev_status :: string
  ev_logs :: string
  ev_timestamp :: nat

record pipeline_row =
  pl_repo_id :: nat
  pl_status :: string
  pl_commit_sha :: string
  pl_started_at :: "nat option"
  pl_finished_at :: "nat option"
  pl_phases :: "phase_entry list"
  pl_metrics :: metrics

record repository =
  rp_github_url :: string
  rp_branch :: string
  rp_notebook_path :: string

record model_deployment =
  dp_model_name :: string
  dp_version :: string
  dp_accuracy :: real
  dp_endpoint_url :: string
  dp_deployed_at :: nat
  dp_is_active :: bool
  dp_pipeline_id :: "string option"

record settings =
  auto_deploy_on_success :: bool
  min_accuracy_threshold :: real
  model_server_url :: string

text \<open>The return value of the task: one of its three dictionaries.\<close>

datatype run_result =
    RunSuccess metrics
  | RunShutdown
  | RunError string

fun result_status :: "run_result \<Rightarrow> string" where
  "result_status (RunSuccess m) = ''success''"
| "result_status RunShutdown = ''failed''"
| "result_status (RunError m) = ''failed''"

subsection \<open>The environment\<close>

text \<open>
  Everything outside the task is a field of the \<open>world\<close>: what each external call does
  when the task makes it (the notebook run, the tracking run and the load call of the
  model server happen at most once in a run, so their outcomes are single values).
  \<open>db_fault_at w k\<close> is the exception, if any, that the \<open>k\<close>-th call
  of \<open>_update_pipeline_db\<close> of the run raises before its commit; \<open>redis_fault_at w k\<close>
  says which Redis command, if any, of the \<open>k\<close>-th call of \<open>_publish_phase\<close> raises;
  \<open>shutting_down_at w k\<close> is the value of the flag \<open>_shutting_down\<close> at the \<open>k\<close>-th
  check between phases.
\<close>

datatype redis_fault = PublishFails string | RpushFails string | ExpireFails string

datatype register_outcome =
    RegisterRaises string
  | RegisterEndRaises "(string \<rightharpoonup> real) option" string
  | RegisterOk "(string \<rightharpoonup> real) option" string

record world =
  wall_clock :: "nat \<Rightarrow> nat"
  db_fault_at :: "nat \<Rightarrow> string option"
  redis_fault_at :: "nat \<Rightarrow> redis_fault option"
  shutting_down_at :: "nat \<Rightarrow> bool"
  repositories :: "nat \<Rightarrow> string + repository option"
  github_fetch :: "repository \<Rightarrow> string + notebook"
  tmpdir_create_fault :: "string option"
  tmpdir_cleanup_fault :: "string option"
  papermill_execute :: "string + string"
  mlflow_register :: register_outcome
  model_server_load :: "string option"
  deployment_commit_fault :: "string option"

text \<open>
  The state the task works on: its local variables \<open>phases\<close>, \<open>metrics\<close> and \<open>deployed\<close>,
  the number of clock readings and of calls made so far, the two database tables and
  the Redis channel log, lists and expiry times.
\<close>

record pstate =
  l_phases :: "phase_entry list"
  l_metrics :: metrics
  l_deployed :: bool
  n_clock :: nat
  n_db :: nat
  n_redis :: nat
  db_pipelines :: "string \<rightharpoonup> pipeline_row"
  db_deployments :: "model_deployment list"
  redis_published :: "(string \<times> phase_event) list"
  redis_lists :: "string \<Rightarrow> phase_event list"
  redis_expiry :: "string \<rightharpoonup> nat"

subsection \<open>Statements that may raise\<close>

text \<open>A statement maps the state to its result, an exception or a value, and the state
  it leaves: what was done before an exception stays done.\<close>

type_synonym 'a io = "pstate \<Rightarrow> (exc + 'a) \<times> pstate"

definition ret :: "'a \<Rightarrow> 'a io" where
  "ret x s = (Inr x, s)"

definition raise :: "exc \<Rightarrow> 'a io" where
  "raise e s = (Inl e, s)"

definition and_then :: "'a io \<Rightarrow> ('a \<Rightarrow> 'b io) \<Rightarrow> 'b io" where
  "and_then m f s = (case m s of (Inl e, s') \<Rightarrow> (Inl e, s') | (Inr x, s') \<Rightarrow> f x s')"

definition seq :: "'a io \<Rightarrow> 'b io \<Rightarrow> 'b io" where
  "seq m n = and_then m (\<lambda>_. n)"

definition read_state :: "(pstate \<Rightarrow> 'a) \<Rightarrow> 'a io" where
  "read_state f s = (Inr (f s), s)"

definition modify :: "(pstate \<Rightarrow> pstate) \<Rightarrow> unit io" where
  "modify f s = (Inr (), f s)"

text \<open>\<open>try: m except Exception as exc: h exc\<close>.\<close>

definition catch_Exception :: "'a io \<Rightarrow> (exc \<Rightarrow> 'a io) \<Rightarrow> 'a io" where
  "catch_Exception m h s =
     (case m s of
        (Inr x, s') \<Rightarrow> (Inr x, s')
      | (Inl e, s') \<Rightarrow> if is_Exception e then h e s' else (Inl e, s'))"

definition now_utc :: "world \<Rightarrow> nat io" where
  "now_utc w s = (Inr (wall_clock w (n_clock s)), s\<lparr>n_clock := Suc (n_clock s)\<rparr>)"

subsection \<open>Redis and database helpers\<close>

definition logs_channel :: "string \<Rightarrow> string" where
  "logs_channel pipeline_id = ''pipeline:'' @ pipeline_id @ '':logs''"

definition phases_key :: "string \<Rightarrow> string" where
  "phases_key pipeline_id = ''pipeline:'' @ pipeline_id @ '':phases''"

definition publish_phase :: "world \<Rightarrow> string \<Rightarrow> string \<Rightarrow> string \<Rightarrow> string \<Rightarrow> unit io" where
  "publish_phase w pipeline_id phase_name status logs =
     and_then (now_utc w) (\<lambda>ts s.
       let payload = \<lparr>ev_pipeline_id = pipeline_id, ev_phase = phase_name, ev_status = status,
                       ev_logs = logs, ev_timestamp = ts\<rparr>;
           k = n_redis s;
           s1 = s\<lparr>n_redis := Suc k\<rparr>;
           s2 = s1\<lparr>redis_published :=
                     redis_published s1 @ [(logs_channel pipeline_id, payload)]\<rparr>;
           s3 = s2\<lparr>redis_lists := (redis_lists s2)
                     (phases_key pipeline_id := redis_lists s2 (phases_key pipeline_id) @ [payload])\<rparr>;
           s4 = s3\<lparr>redis_expiry := (redis_expiry s3)(phases_key pipeline_id \<mapsto> 86400)\<rparr>
       in case redis_fault_at w k of
            Some (PublishFails m) \<Rightarrow> (Inl (OtherException m), s1)
          | Some (RpushFails m) \<Rightarrow> (Inl (OtherException m), s2)
          | Some (ExpireFails m) \<Rightarrow> (Inl (OtherException m), s3)
          | None \<Rightarrow> (Inr (), s4))"

definition or_keep :: "'a option \<Rightarrow> 'a \<Rightarrow> 'a" where
  "or_keep new old = (case new of None \<Rightarrow> old | Some v \<Rightarrow> v)"

definition update_row ::
  "string option \<Rightarrow> phase_entry list option \<Rightarrow> metrics option \<Rightarrow> nat option \<Rightarrow> nat option
     \<Rightarrow> pipeline_row \<Rightarrow> pipeline_row" where
  "update_row status phases metrics started_at finished_at pipeline =
     pipeline\<lparr>pl_status := or_keep status (pl_status pipeline),
              pl_phases := or_keep phases (pl_phases pipeline),
              pl_metrics := or_keep metrics (pl_metrics pipeline),
              pl_started_at := (case started_at of None \<Rightarrow> pl_started_at pipeline | Some t \<Rightarrow> Some t),
              pl_finished_at := (case finished_at of None \<Rightarrow> pl_finished_at pipeline | Some t \<Rightarrow> Some t)\<rparr>"

definition update_pipeline_db ::
  "world \<Rightarrow> string \<Rightarrow> string option \<Rightarrow> phase_entry list option \<Rightarrow> metrics option
     \<Rightarrow> nat option \<Rightarrow> nat option \<Rightarrow> unit io" where
  "update_pipeline_db w pipeline_id status phases metrics started_at finished_at s =
     (let k = n_db s; s1 = s\<lparr>n_db := Suc k\<rparr>
      in case db_fault_at w k of
           Some m \<Rightarrow> (Inl (OtherException m), s1)
         | None \<Rightarrow>
             (case db_pipelines s1 pipeline_id of
                None \<Rightarrow> (Inr (), s1)
              | Some pipeline \<Rightarrow>
                  (Inr (), s1\<lparr>db_pipelines := (db_pipelines s1)(pipeline_id \<mapsto>
                      update_row status phases metrics started_at finished_at pipeline)\<rparr>)))"

text \<open>The local function \<open>_phase\<close> of \<open>run_pipeline\<close>.\<close>

definition phase :: "world \<Rightarrow> string \<Rightarrow> string \<Rightarrow> string \<Rightarrow> string \<Rightarrow> unit io" where
  "phase w pipeline_id name status logs =
     and_then (now_utc w) (\<lambda>ts.
     seq (modify (\<lambda>s. s\<lparr>l_phases := l_phases s @
            [\<lparr>pe_name = name, pe_status = status, pe_timestamp = ts, pe_logs = logs\<rparr>]\<rparr>))
    (seq (publish_phase w pipeline_id name status logs)
    (and_then (read_state l_phases) (\<lambda>phases.
       update_pipeline_db w pipeline_id None (Some phases) None None None))))"


subsection \<open>The phases\<close>

fun digit_char :: "nat \<Rightarrow> char" where
  "digit_char n = char_of (48 + n)"

fun string_of_nat :: "nat \<Rightarrow> string" where
  "string_of_nat n =
     (if n < 10 then [digit_char n] else string_of_nat (n div 10) @ [digit_char (n mod 10)])"

text \<open>The check between two phases.\<close>

definition check_shutdown :: "world \<Rightarrow> nat \<Rightarrow> unit io" where
  "check_shutdown w k =
     (if shutting_down_at w k then raise (SystemExit ''Worker shutting down'') else ret ())"

text \<open>Phase 1: look the repository up, fetch and decode the notebook.\<close>

definition download_phase :: "world \<Rightarrow> string \<Rightarrow> nat \<Rightarrow> notebook io" where
  "download_phase w pipeline_id repo_id =
     seq (phase w pipeline_id ''download'' ''running'' [])
       (case repositories w repo_id of
          Inl m \<Rightarrow> raise (OtherException m)
        | Inr None \<Rightarrow>
            raise (ValueError (''Repository '' @ string_of_nat repo_id @ '' not found.''))
        | Inr (Some repo) \<Rightarrow>
            (case github_fetch w repo of
               Inl m \<Rightarrow> raise (OtherException m)
             | Inr notebook \<Rightarrow>
                 seq (phase w pipeline_id ''download'' ''success'' []) (ret notebook)))"

text \<open>Phase 2: the required tags and the model identity.\<close>

definition validate_phase :: "world \<Rightarrow> string \<Rightarrow> notebook \<Rightarrow> config io" where
  "validate_phase w pipeline_id notebook =
     seq (phase w pipeline_id ''validate'' ''running'' [])
       (case validate_required_tags notebook of
          Inl e \<Rightarrow> raise e
        | Inr u \<Rightarrow>
            (case extract_config notebook of
               Inl e \<Rightarrow> raise e
             | Inr config \<Rightarrow>
                 seq (phase w pipeline_id ''validate'' ''success'' []) (ret config)))"

text \<open>\<open>with tempfile.TemporaryDirectory() as tmpdir: body\<close>: the directory is removed
  on every exit from the body, and a failure of the removal is raised in place of the
  body's result.\<close>

definition with_tmpdir :: "world \<Rightarrow> 'a io \<Rightarrow> 'a io" where
  "with_tmpdir w body s =
     (case tmpdir_create_fault w of
        Some m \<Rightarrow> (Inl (OtherException m), s)
      | None \<Rightarrow>
          (case body s of
             (r, s') \<Rightarrow>
               (case tmpdir_cleanup_fault w of
                  None \<Rightarrow> (r, s')
                | Some m \<Rightarrow> (Inl (OtherException m), s'))))"

text \<open>Phase 3, inside the temporary directory: papermill runs the notebook and the
  outputs of its cells, truncated, are the log of the phase.\<close>

definition execute_phase :: "world \<Rightarrow> string \<Rightarrow> unit io" where
  "execute_phase w pipeline_id =
     (case papermill_execute w of
        Inl m \<Rightarrow> raise (OtherException m)
      | Inr cell_logs \<Rightarrow> phase w pipeline_id ''execute'' ''success'' cell_logs)"

definition metrics_of_run :: "(string \<rightharpoonup> real) option \<Rightarrow> metrics" where
  "metrics_of_run read_back =
     (case read_back of None \<Rightarrow> Map.empty | Some m \<Rightarrow> (\<lambda>k. map_option MFloat (m k)))"

definition get_accuracy :: "metrics \<Rightarrow> real" where
  "get_accuracy m = (case m ''accuracy'' of None \<Rightarrow> 0 | Some v \<Rightarrow> mval_num v)"

text \<open>Phase 4: the tracking run. The result is the accuracy and the MLflow run id.\<close>

definition register_phase :: "world \<Rightarrow> string \<Rightarrow> (real \<times> string) io" where
  "register_phase w pipeline_id =
     seq (phase w pipeline_id ''register'' ''running'' [])
       (case mlflow_register w of
          RegisterRaises m \<Rightarrow> raise (OtherException m)
        | RegisterEndRaises read_back m \<Rightarrow>
            seq (modify (\<lambda>s. s\<lparr>l_metrics := metrics_of_run read_back\<rparr>))
              (raise (OtherException m))
        | RegisterOk read_back mlflow_run_id \<Rightarrow>
            seq (modify (\<lambda>s. s\<lparr>l_metrics := metrics_of_run read_back\<rparr>))
           (and_then (read_state l_metrics) (\<lambda>metrics.
            seq (phase w pipeline_id ''register'' ''success'' [])
              (ret (get_accuracy metrics, mlflow_run_id)))))"

text \<open>The deployment record: one session, one commit. The rows of the same model that
  are active are deactivated and the new row is added; an exception before or at the
  commit leaves the table as it was.\<close>

definition deactivate :: "string \<Rightarrow> model_deployment \<Rightarrow> model_deployment" where
  "deactivate model_name p =
     (if dp_model_name p = model_name \<and> dp_is_active p then p\<lparr>dp_is_active := False\<rparr> else p)"

definition save_deployment ::
  "world \<Rightarrow> string \<Rightarrow> string \<Rightarrow> string \<Rightarrow> real \<Rightarrow> string \<Rightarrow> unit io" where
  "save_deployment w pipeline_id model_name model_version accuracy endpoint_url =
     (case deployment_commit_fault w of
        Some m \<Rightarrow> raise (OtherException m)
      | None \<Rightarrow>
          and_then (now_utc w) (\<lambda>ts.
            modify (\<lambda>s. s\<lparr>db_deployments :=
              map (deactivate model_name) (db_deployments s) @
              [\<lparr>dp_model_name = model_name, dp_version = model_version,
                dp_accuracy = accuracy, dp_endpoint_url = endpoint_url,
                dp_deployed_at = ts, dp_is_active = True,
                dp_pipeline_id = Some pipeline_id\<rparr>]\<rparr>)))"

text \<open>Phase 5: the promotion, with its own \<open>try\<close>.\<close>

definition deploy_phase ::
  "world \<Rightarrow> settings \<Rightarrow> string \<Rightarrow> config \<Rightarrow> real \<Rightarrow> string \<Rightarrow> unit io" where
  "deploy_phase w st pipeline_id config accuracy mlflow_run_id =
     seq (modify (\<lambda>s. s\<lparr>l_deployed := False\<rparr>))
       (if auto_deploy_on_success st \<and> accuracy \<ge> min_accuracy_threshold st then
          seq (phase w pipeline_id ''deploy'' ''running'' [])
            (catch_Exception
               (case model_server_load w of
                  Some m \<Rightarrow> raise (OtherException m)
                | None \<Rightarrow>
                    seq (save_deployment w pipeline_id (cfg_model_name config) (cfg_version config)
                           accuracy (model_server_url st @ ''/predict/'' @ cfg_model_name config))
                   (seq (modify (\<lambda>s. s\<lparr>l_deployed := True\<rparr>))
                        (phase w pipeline_id ''deploy'' ''success'' [])))
               (\<lambda>exc. phase w pipeline_id ''deploy'' ''failed'' (str_exc exc)))
        else ret ())"

text \<open>The end of the \<open>try\<close> block.\<close>

definition mark_success :: "world \<Rightarrow> string \<Rightarrow> run_result io" where
  "mark_success w pipeline_id =
     seq (modify (\<lambda>s. s\<lparr>l_metrics := (l_metrics s)(''deployed'' \<mapsto> MBool (l_deployed s))\<rparr>))
    (and_then (read_state l_phases) (\<lambda>phases.
     and_then (read_state l_metrics) (\<lambda>metrics.
     and_then (now_utc w) (\<lambda>ts.
     seq (update_pipeline_db w pipeline_id (Some ''success'') (Some phases) (Some metrics)
            None (Some ts))
    (seq (publish_phase w pipeline_id ''complete'' ''success'' [])
         (ret (RunSuccess metrics)))))))"

definition try_body :: "world \<Rightarrow> settings \<Rightarrow> string \<Rightarrow> nat \<Rightarrow> string \<Rightarrow> run_result io" where
  "try_body w st pipeline_id repo_id commit_sha =
     seq (and_then (now_utc w) (\<lambda>ts.
            update_pipeline_db w pipeline_id (Some ''running'') None None (Some ts) None))
    (and_then (download_phase w pipeline_id repo_id) (\<lambda>notebook.
     seq (check_shutdown w 0)
    (and_then (validate_phase w pipeline_id notebook) (\<lambda>config.
     seq (check_shutdown w 1)
    (seq (phase w pipeline_id ''execute'' ''running'' [])
    (seq (with_tmpdir w
           (seq (execute_phase w pipeline_id)
           (seq (check_shutdown w 2)
           (and_then (register_phase w pipeline_id) (\<lambda>(accuracy, mlflow_run_id).
              deploy_phase w st pipeline_id config accuracy mlflow_run_id)))))
         (mark_success w pipeline_id)))))))"

text \<open>The two handlers. An exception raised inside a handler leaves the task.\<close>

definition on_shutdown :: "world \<Rightarrow> string \<Rightarrow> run_result io" where
  "on_shutdown w pipeline_id =
     and_then (read_state l_phases) (\<lambda>phases.
     and_then (now_utc w) (\<lambda>ts.
     seq (update_pipeline_db w pipeline_id (Some ''failed'') (Some phases) None None (Some ts))
    (seq (publish_phase w pipeline_id ''shutdown'' ''failed'' ''Worker shutting down'')
         (ret RunShutdown))))"

definition on_exception :: "world \<Rightarrow> string \<Rightarrow> exc \<Rightarrow> run_result io" where
  "on_exception w pipeline_id exc =
     seq (phase w pipeline_id ''error'' ''failed'' (str_exc exc))
    (and_then (read_state l_phases) (\<lambda>phases.
     and_then (read_state l_metrics) (\<lambda>metrics.
     and_then (now_utc w) (\<lambda>ts.
     seq (update_pipeline_db w pipeline_id (Some ''failed'') (Some phases) (Some metrics)
            None (Some ts))
         (ret (RunError (str_exc exc)))))))"

text \<open>The task starts with empty \<open>phases\<close> and \<open>metrics\<close>; the counters count the calls of
  this run.\<close>

definition start_state :: "pstate \<Rightarrow> pstate" where
  "start_state ext =
     ext\<lparr>l_phases := [], l_metrics := Map.empty, l_deployed := False,
         n_clock := 0, n_db := 0, n_redis := 0\<rparr>"

definition run_pipeline ::
  "world \<Rightarrow> settings \<Rightarrow> string \<Rightarrow> nat \<Rightarrow> string \<Rightarrow> pstate \<Rightarrow> (exc + run_result) \<times> pstate" where
  "run_pipeline w st pipeline_id repo_id commit_sha ext =
     (case try_body w st pipeline_id repo_id commit_sha (start_state ext) of
        (Inr r, s) \<Rightarrow> (Inr r, s)
      | (Inl (SystemExit m), s) \<Rightarrow> on_shutdown w pipeline_id s
      | (Inl e, s) \<Rightarrow> on_exception w pipeline_id e s)"

subsection \<open>Notions used to state the properties of a run\<close>

text \<open>
  \<open>infra_ok\<close>: no call of the state store, of the broadcaster and of the removal of the
  temporary directory raises. \<open>phase_view\<close>: the names and statuses of the phase list, in
  order. \<open>completed ns\<close>: the entries of phases that ran to success one after the other.
  \<open>run_stored\<close>: the row of the run holds the status of the result, an end time, the
  phase list of the task and, for a successful run, its metrics.
\<close>

definition infra_ok :: "world \<Rightarrow> bool" where
  "infra_ok w \<longleftrightarrow>
     (\<forall>k. db_fault_at w k = None) \<and> (\<forall>k. redis_fault_at w k = None) \<and>
     tmpdir_cleanup_fault w = None"

definition phase_view :: "pstate \<Rightarrow> (string \<times> string) list" where
  "phase_view s = map (\<lambda>e. (pe_name e, pe_status e)) (l_phases s)"

definition completed :: "string list \<Rightarrow> (string \<times> string) list" where
  "completed ns = concat (map (\<lambda>n. [(n, ''running''), (n, ''success'')]) ns)"

definition main_phases :: "string list" where
  "main_phases = [''download'', ''validate'', ''execute'', ''register'']"

definition run_stored :: "string \<Rightarrow> run_result \<Rightarrow> pstate \<Rightarrow> bool" where
  "run_stored pipeline_id r s \<longleftrightarrow>
     (\<exists>row. db_pipelines s pipeline_id = Some row \<and>
        pl_status row = result_status r \<and> pl_finished_at row \<noteq> None \<and>
        pl_phases row = l_phases s \<and>
        (\<forall>m. r = RunSuccess m \<longrightarrow> pl_metrics row = m))"

text \<open>
  \<open>triple P m Q\<close>: from every state that satisfies \<open>P\<close>, the statement \<open>m\<close> ends with a
  result and a state that satisfy \<open>Q\<close>. \<open>post N E\<close> is the assertion that says \<open>N\<close> of a
  returned value and \<open>E\<close> of a raised exception.
\<close>

definition triple :: "(pstate \<Rightarrow> bool) \<Rightarrow> 'a io \<Rightarrow> (exc + 'a \<Rightarrow> pstate \<Rightarrow> bool) \<Rightarrow> bool" where
  "triple P m Q \<longleftrightarrow> (\<forall>s. P s \<longrightarrow> Q (fst (m s)) (snd (m s)))"

definition post ::
  "('a \<Rightarrow> pstate \<Rightarrow> bool) \<Rightarrow> (exc \<Rightarrow> pstate \<Rightarrow> bool) \<Rightarrow> exc + 'a \<Rightarrow> pstate \<Rightarrow> bool" where
  "post N E r s = (case r of Inr x \<Rightarrow> N x s | Inl e \<Rightarrow> E e s)"

subsection \<open>Assertions on the states of a run\<close>

text \<open>
  The shape of the phase list while the run is between phases (\<open>at_phase\<close>), inside a phase
  (\<open>in_phase\<close>), after the deploy step (\<open>after_deploy\<close>), at the entry of a handler
  (\<open>aborted\<close>) and at the end (\<open>succeeded\<close>, \<open>run_ended\<close>). \<open>failed_at k\<close> is the list
  of a run whose \<open>k\<close>-th phase was started and did not finish.
\<close>

definition failed_at :: "nat \<Rightarrow> (string \<times> string) list" where
  "failed_at k = completed (take k main_phases) @ [(main_phases ! k, ''running'')]"

definition deploy_views :: "(string \<times> string) list set" where
  "deploy_views = {[], [(''deploy'', ''running''), (''deploy'', ''failed'')], completed [''deploy'']}"

definition at_phase :: "string \<Rightarrow> nat \<Rightarrow> pstate \<Rightarrow> bool" where
  "at_phase pid k s \<longleftrightarrow>
     db_pipelines s pid \<noteq> None \<and> phase_view s = completed (take k main_phases)"

definition in_phase :: "string \<Rightarrow> nat \<Rightarrow> pstate \<Rightarrow> bool" where
  "in_phase pid k s \<longleftrightarrow> db_pipelines s pid \<noteq> None \<and> phase_view s = failed_at k"

definition aborted :: "world \<Rightarrow> string \<Rightarrow> exc \<Rightarrow> pstate \<Rightarrow> bool" where
  "aborted w pid e s \<longleftrightarrow>
     db_pipelines s pid \<noteq> None \<and>
     (if is_Exception e then \<exists>k<4. phase_view s = failed_at k
      else \<exists>k<3. shutting_down_at w k \<and> phase_view s = completed (take (Suc k) main_phases))"

definition succeeded :: "string \<Rightarrow> run_result \<Rightarrow> pstate \<Rightarrow> bool" where
  "succeeded pid r s \<longleftrightarrow>
     (\<exists>m. r = RunSuccess m) \<and> run_stored pid r s \<and>
     (\<exists>d \<in> deploy_views. phase_view s = completed main_phases @ d)"

definition run_ended :: "world \<Rightarrow> string \<Rightarrow> exc + run_result \<Rightarrow> pstate \<Rightarrow> bool" where
  "run_ended w pid res s \<longleftrightarrow>
     (\<exists>r. res = Inr r \<and> run_stored pid r s \<and>
        (\<forall>msg. r = RunError msg \<longrightarrow>
           (\<exists>k<4. phase_view s = failed_at k @ [(''error'', ''failed'')]) \<and>
           pe_logs (last (l_phases s)) = msg) \<and>
        (r = RunShutdown \<longrightarrow>
           (\<exists>k<3. shutting_down_at w k \<and> phase_view s = completed (take (Suc k) main_phases))) \<and>
        (\<forall>m. r = RunSuccess m \<longrightarrow>
           (\<exists>d \<in> deploy_views. phase_view s = completed main_phases @ d)))"

definition after_deploy :: "string \<Rightarrow> pstate \<Rightarrow> bool" where
  "after_deploy pid s \<longleftrightarrow>
     db_pipelines s pid \<noteq> None \<and> (\<exists>d \<in> deploy_views. phase_view s = completed main_phases @ d)"

text \<open>
  \<open>calls_ok w j\<close>: the broadcaster has been called \<open>j\<close> times and no call raised.
\<close>

definition calls_ok :: "world \<Rightarrow> nat \<Rightarrow> pstate \<Rightarrow> bool" where
  "calls_ok w j s \<longleftrightarrow> n_redis s = j \<and> (\<forall>k<j. redis_fault_at w k = None)"

definition first_nine_ok :: "world \<Rightarrow> bool" where
  "first_nine_ok w \<longleftrightarrow> (\<forall>k\<le>8. redis_fault_at w k = None)"

text \<open>
  \<open>run_config\<close>: the model identity of the run, extracted from the notebook the repository
  yields. \<open>promoted\<close>: the deployment table after the commit of the promotion.
  \<open>deploy_state\<close>: the table is promoted exactly when the task has set \<open>deployed\<close>.
\<close>

definition run_config :: "world \<Rightarrow> nat \<Rightarrow> config \<Rightarrow> bool" where
  "run_config w rid cfg \<longleftrightarrow>
     (\<exists>repo nb. repositories w rid = Inr (Some repo) \<and> github_fetch w repo = Inr nb \<and>
        extract_config nb = Inr cfg)"

definition promoted ::
  "string \<Rightarrow> config \<Rightarrow> model_deployment list \<Rightarrow> model_deployment list \<Rightarrow> bool" where
  "promoted pid cfg before after \<longleftrightarrow>
     (\<exists>new. after = map (deactivate (cfg_model_name cfg)) before @ [new] \<and>
        dp_model_name new = cfg_model_name cfg \<and> dp_version new = cfg_version cfg \<and>
        dp_is_active new \<and> dp_pipeline_id new = Some pid)"

definition deploy_state :: "string \<Rightarrow> config \<Rightarrow> model_deployment list \<Rightarrow> pstate \<Rightarrow> bool" where
  "deploy_state pid cfg before s \<longleftrightarrow>
     (if l_deployed s then promoted pid cfg before (db_deployments s)
      else db_deployments s = before)"

text \<open>
  \<open>not_deploying\<close>: no entry of the phase list, and (under the condition \<open>C\<close>) none of
  the stored row, is a deploy entry, and \<open>deployed\<close> is not set.
\<close>

definition no_deploy :: "phase_entry list \<Rightarrow> bool" where
  "no_deploy ps \<longleftrightarrow> (\<forall>e \<in> set ps. pe_name e \<noteq> ''deploy'')"

definition not_deploying :: "bool \<Rightarrow> string \<Rightarrow> pstate \<Rightarrow> bool" where
  "not_deploying C pid s \<longleftrightarrow>
     no_deploy (l_phases s) \<and> \<not> l_deployed s \<and>
     (C \<longrightarrow> (\<forall>row. db_pipelines s pid = Some row \<longrightarrow> no_deploy (pl_phases row)))"

section \<open>Sample inputs\<close>

text \<open>Concrete notebooks, registries and environments on which the theorems below are
  exercised.\<close>

definition tagged_cell :: "string \<Rightarrow> string list \<Rightarrow> cell" where
  "tagged_cell tag src =
     \<lparr>c_cell_type = ''code'', c_metadata = Some \<lparr>md_tags = Some [tag]\<rparr>,
      c_source = Some (SourceLines src)\<rparr>"

definition nb_two_missing :: notebook where
  "nb_two_missing =
     \<lparr>nb_cells = Some [tagged_cell ''mlops:config'' [''MODEL_NAME = 'iris-classifier' ''],
                       tagged_cell ''mlops:preprocessing'' []]\<rparr>"

definition sample_entry :: "nat model_entry" where
  "sample_entry = \<lparr>me_model = (\<lambda>rows. Inr (Prediction (Inr [0, 1, 2]))), me_model_name = ''test-model'',
     me_version = ''1'', me_mlflow_run_id = ''run-abc123'', me_loaded_at = 0, me_request_count = 4\<rparr>"

definition sample_registry :: "nat registry" where
  "sample_registry = [''test-model'' \<mapsto> sample_entry]"

definition env_down :: "nat load_env" where
  "env_down = \<lparr>download_artifacts = (\<lambda>r. Inl ''MLflow down''), path_is_dir = (\<lambda>p. Inr False),
     glob_joblib = (\<lambda>p. Inr []), iterdir = (\<lambda>p. Inr []), joblib_load = (\<lambda>p. Inl ''no file''),
     load_time = 7\<rparr>"

definition env_empty_dir :: "nat load_env" where
  "env_empty_dir = \<lparr>download_artifacts = (\<lambda>r. Inr ''/app/models/model''), path_is_dir = (\<lambda>p. Inr True),
     glob_joblib = (\<lambda>p. Inr []), iterdir = (\<lambda>p. Inr []), joblib_load = (\<lambda>p. Inl ''no file''),
     load_time = 7\<rparr>"

definition env_good :: "nat load_env" where
  "env_good = \<lparr>download_artifacts = (\<lambda>r. Inr ''/app/models/model.joblib''), path_is_dir = (\<lambda>p. Inr False),
     glob_joblib = (\<lambda>p. Inr []), iterdir = (\<lambda>p. Inr []),
     joblib_load = (\<lambda>p. Inr (\<lambda>rows. Inr (Prediction (Inr [1])))), load_time = 7\<rparr>"

definition load_req :: load_model_request where
  "load_req = \<lparr>lr_mlflow_run_id = ''run-fail'', lr_version = ''2''\<rparr>"


definition nb_ok :: notebook where
  "nb_ok =
     \<lparr>nb_cells = Some [tagged_cell ''mlops:config''
                         [''MODEL_NAME = 'iris-classifier' '', ''VERSION = '1' ''],
                       tagged_cell ''mlops:preprocessing'' [],
                       tagged_cell ''mlops:training'' [],
                       tagged_cell ''mlops:export'' []]\<rparr>"

definition nb_no_training :: notebook where
  "nb_no_training =
     \<lparr>nb_cells = Some [tagged_cell ''mlops:config''
                         [''MODEL_NAME = 'iris-classifier' '', ''VERSION = '1' ''],
                       tagged_cell ''mlops:preprocessing'' [],
                       tagged_cell ''mlops:export'' []]\<rparr>"

definition repo0 :: repository where
  "repo0 = \<lparr>rp_github_url = ''https://github.com/user/repo'', rp_branch = ''main'',
            rp_notebook_path = ''notebooks/train.ipynb''\<rparr>"

text \<open>A world in which everything works and the model reaches an accuracy of 0.95.\<close>

definition w_ok :: world where
  "w_ok =
     \<lparr>wall_clock = (\<lambda>k. k), db_fault_at = (\<lambda>k. None), redis_fault_at = (\<lambda>k. None),
      shutting_down_at = (\<lambda>k. False), repositories = (\<lambda>i. Inr (Some repo0)),
      github_fetch = (\<lambda>r. Inr nb_ok), tmpdir_create_fault = None,
      tmpdir_cleanup_fault = None, papermill_execute = Inr ''[]'',
      mlflow_register = RegisterOk (Some [''accuracy'' \<mapsto> 0.95]) ''run1'',
      model_server_load = None, deployment_commit_fault = None\<rparr>"

text \<open>The download fails and the broadcaster is down when the handler publishes.\<close>

definition w_fetch_fails_redis_down :: world where
  "w_fetch_fails_redis_down =
     w_ok\<lparr>github_fetch := (\<lambda>r. Inl ''404 Not Found''),
          redis_fault_at :=
            (\<lambda>k. if k = 1 then Some (PublishFails ''Connection refused'') else None)\<rparr>"

text \<open>The worker is told to shut down during the download.\<close>

definition w_shutdown :: world where
  "w_shutdown = w_ok\<lparr>shutting_down_at := (\<lambda>k. True)\<rparr>"

text \<open>The notebook of the repository has no training cell.\<close>

definition w_no_training :: world where
  "w_no_training = w_ok\<lparr>github_fetch := (\<lambda>r. Inr nb_no_training)\<rparr>"

text \<open>The broadcaster fails on the first phase transition only.\<close>

definition w_first_publish_fails :: world where
  "w_first_publish_fails =
     w_ok\<lparr>redis_fault_at :=
            (\<lambda>k. if k = 0 then Some (PublishFails ''Connection refused'') else None)\<rparr>"

text \<open>The model server refuses the load call.\<close>

definition w_load_fails :: world where
  "w_load_fails = w_ok\<lparr>model_server_load := Some ''503 Service Unavailable''\<rparr>"

text \<open>The model reaches an accuracy of 0.5 only.\<close>

definition w_low_accuracy :: world where
  "w_low_accuracy = w_ok\<lparr>mlflow_register := RegisterOk (Some [''accuracy'' \<mapsto> 0.5]) ''run1''\<rparr>"

definition st0 :: settings where
  "st0 = \<lparr>auto_deploy_on_success = True, min_accuracy_threshold = 0.7,
           model_server_url = ''http://model-server:8001''\<rparr>"

definition row0 :: pipeline_row where
  "row0 = \<lparr>pl_repo_id = 1, pl_status = ''queued'', pl_commit_sha = ''abc123'',
            pl_started_at = None, pl_finished_at = None, pl_phases = [],
            pl_metrics = Map.empty\<rparr>"

definition old_iris :: model_deployment where
  "old_iris = \<lparr>dp_model_name = ''iris-classifier'', dp_version = ''0'', dp_accuracy = 0.8,
                dp_endpoint_url = ''http://model-server:8001/predict/iris-classifier'',
                dp_deployed_at = 0, dp_is_active = True, dp_pipeline_id = Some ''p0''\<rparr>"

definition other_model :: model_deployment where
  "other_model = \<lparr>dp_model_name = ''wine'', dp_version = ''3'', dp_accuracy = 0.9,
                   dp_endpoint_url = ''http://model-server:8001/predict/wine'',
                   dp_deployed_at = 0, dp_is_active = True, dp_pipeline_id = Some ''p0''\<rparr>"

definition ext0 :: pstate where
  "ext0 = \<lparr>l_phases = [], l_metrics = Map.empty, l_deployed = False,
            n_clock = 0, n_db = 0, n_redis = 0,
            db_pipelines = [''p1'' \<mapsto> row0], db_deployments = [old_iris, other_model],
            redis_published = [], redis_lists = (\<lambda>k. []), redis_expiry = Map.empty\<rparr>"


section \<open>The notebook contract validator\<close>

lemmas nb_eval = get_cells_by_tag_def cell_tags_def tagged_cell_def REQUIRED_TAGS_def

lemma missing_loop_filter:
  "missing_loop nb tags acc = acc @ filter (\<lambda>t. get_cells_by_tag nb t = []) tags"
  by (induction tags arbitrary: acc) auto

text \<open>
  C3. \<open>validate_required_tags\<close> returns without error exactly when every required tag is
  carried by some cell; otherwise it raises a \<open>ValueError\<close> whose message lists, between
  its fixed opening and its fixed closing sentence, all the required tags that no cell
  carries, in the order of \<open>REQUIRED_TAGS\<close>, and no other tag.
\<close>

theorem validate_required_tags_lists_every_missing_tag:
  "validate_required_tags nb =
     (if \<forall>t \<in> set REQUIRED_TAGS. get_cells_by_tag nb t \<noteq> [] then Inr ()
      else Inl (ValueError
             (''Notebook is missing required MLOps tags: '' @
              join '', '' (filter (\<lambda>t. get_cells_by_tag nb t = []) REQUIRED_TAGS) @
              ''. Each cell must have metadata.tags containing the appropriate '' @
              ''mlops:* tag. Required tags: '' @
              ''mlops:config, mlops:preprocessing, mlops:training, mlops:export'')))"
  by (simp add: validate_required_tags_def missing_loop_filter Let_def filter_empty_conv
      missing_tags_msg_def REQUIRED_TAGS_def)


text \<open>A notebook with a config and a preprocessing cell only: the message names the two
  other tags.\<close>

theorem validate_required_tags_witness:
  "\<not> (\<forall>t \<in> set REQUIRED_TAGS. get_cells_by_tag nb_two_missing t \<noteq> []) \<and>
   validate_required_tags nb_two_missing =
     Inl (ValueError
       (''Notebook is missing required MLOps tags: mlops:training, mlops:export'' @
        ''. Each cell must have metadata.tags containing the appropriate '' @
        ''mlops:* tag. Required tags: '' @
        ''mlops:config, mlops:preprocessing, mlops:training, mlops:export''))"
  using validate_required_tags_lists_every_missing_tag [of nb_two_missing]
  by (simp add: nb_eval nb_two_missing_def)


subsection \<open>The scan is the leftmost match of the regular expression\<close>

lemma space_not_eq: "\<not> is_space CHR ''=''" by (simp add: is_space_def)
lemma quote_not_space: "is_quote q \<Longrightarrow> \<not> is_space q" by (auto simp: is_space_def is_quote_def)

lemma strip_prefix_Some: "strip_prefix k s = Some r \<longleftrightarrow> s = k @ r"
  by (induction k s rule: strip_prefix.induct) auto

lemma dropWhile_eq_Cons_D:
  "dropWhile P xs = y # ys \<Longrightarrow> xs = takeWhile P xs @ y # ys \<and> \<not> P y"
  by (metis dropWhile_eq_Cons_conv takeWhile_dropWhile_id)


lemma match_at_sound: "match_at key s = Some v \<Longrightarrow> assign_form key s v"
proof -
  assume m: "match_at key s = Some v"
  from m obtain r1 where r1: "strip_prefix key s = Some r1"
    by (auto simp: match_at_def split: option.splits)
  from m r1 obtain e r2 where d1: "dropWhile is_space r1 = e # r2"
    by (auto simp: match_at_def split: list.splits)
  from m r1 d1 have e: "e = CHR ''=''"
    by (auto simp: match_at_def split: if_splits)
  from m r1 d1 e obtain q r3 where d2: "dropWhile is_space r2 = q # r3"
    by (auto simp: match_at_def split: list.splits)
  from m r1 d1 e d2 have q: "is_quote q"
    by (auto simp: match_at_def split: if_splits)
  from m r1 d1 e d2 q have v: "v = takeWhile (\<lambda>c. \<not> is_quote c) r3" "v \<noteq> []"
    and r4: "dropWhile (\<lambda>c. \<not> is_quote c) r3 \<noteq> []"
    by (auto simp: match_at_def Let_def split: if_splits)
  from r4 obtain q2 rest where d3: "dropWhile (\<lambda>c. \<not> is_quote c) r3 = q2 # rest"
    by (cases "dropWhile (\<lambda>c. \<not> is_quote c) r3") auto
  have s1: "s = key @ r1" using r1 by (simp add: strip_prefix_Some)
  have s2: "r1 = takeWhile is_space r1 @ ''='' @ r2"
    using dropWhile_eq_Cons_D [OF d1] e by simp
  have s3: "r2 = takeWhile is_space r2 @ [q] @ r3"
    using dropWhile_eq_Cons_D [OF d2] by simp
  have s4: "r3 = v @ [q2] @ rest" and q2: "is_quote q2"
    using dropWhile_eq_Cons_D [OF d3] v by simp_all
  have sp1: "\<forall>c \<in> set (takeWhile is_space r1). is_space c"
    by (auto dest: set_takeWhileD)
  have sp2: "\<forall>c \<in> set (takeWhile is_space r2). is_space c"
    by (auto dest: set_takeWhileD)
  have nq: "\<forall>c \<in> set v. \<not> is_quote c"
    unfolding v by (auto dest: set_takeWhileD)
  have "s = key @ takeWhile is_space r1 @ ''='' @ takeWhile is_space r2 @ [q] @ v @ [q2] @ rest"
    using s1 s2 s3 s4 by metis
  then show ?thesis
    unfolding assign_form_def using sp1 sp2 q q2 v(2) nq by blast
qed

lemma match_at_complete: "assign_form key s v \<Longrightarrow> match_at key s = Some v"
proof -
  assume "assign_form key s v"
  then obtain ws1 ws2 q1 q2 rest where
    s: "s = key @ ws1 @ ''='' @ ws2 @ [q1] @ v @ [q2] @ rest"
    and w1: "\<forall>c \<in> set ws1. is_space c" and w2: "\<forall>c \<in> set ws2. is_space c"
    and q1: "is_quote q1" and q2: "is_quote q2" and v: "v \<noteq> []"
    and nq: "\<forall>c \<in> set v. \<not> is_quote c"
    unfolding assign_form_def by blast
  have a: "strip_prefix key s = Some (ws1 @ ''='' @ ws2 @ [q1] @ v @ [q2] @ rest)"
    by (simp add: strip_prefix_Some s)
  have b: "dropWhile is_space (ws1 @ ''='' @ ws2 @ [q1] @ v @ [q2] @ rest)
             = CHR ''='' # (ws2 @ [q1] @ v @ [q2] @ rest)"
    using w1 by (simp add: dropWhile_append2 space_not_eq)
  have c: "dropWhile is_space (ws2 @ [q1] @ v @ [q2] @ rest) = q1 # (v @ [q2] @ rest)"
    using w2 q1 by (simp add: dropWhile_append2 quote_not_space)
  have d: "takeWhile (\<lambda>c. \<not> is_quote c) (v @ [q2] @ rest) = v"
    using nq q2 by (simp add: takeWhile_append2)
  have e: "dropWhile (\<lambda>c. \<not> is_quote c) (v @ [q2] @ rest) = q2 # rest"
    using nq q2 by (simp add: dropWhile_append2)
  show ?thesis
    unfolding match_at_def a using b c d e v q1 q2 by (simp add: Let_def)
qed

lemma match_at_iff: "match_at key s = Some v \<longleftrightarrow> assign_form key s v"
  using match_at_sound match_at_complete by blast

lemma re_search_None:
  "re_search key s = None \<longleftrightarrow> (\<forall>pre suf. s = pre @ suf \<longrightarrow> match_at key suf = None)"
proof (induction s)
  case Nil
  then show ?case by simp
next
  case (Cons c cs)
  show ?case
  proof
    assume n: "re_search key (c # cs) = None"
    then have m: "match_at key (c # cs) = None" and r: "re_search key cs = None"
      by (auto split: option.splits)
    show "\<forall>pre suf. c # cs = pre @ suf \<longrightarrow> match_at key suf = None"
    proof (intro allI impI)
      fix pre suf assume eq: "c # cs = pre @ suf"
      show "match_at key suf = None"
      proof (cases pre)
        case Nil
        then show ?thesis using eq m by simp
      next
        case (Cons p ps)
        then have "cs = ps @ suf" using eq by simp
        then show ?thesis using r Cons.IH by blast
      qed
    qed
  next
    assume a: "\<forall>pre suf. c # cs = pre @ suf \<longrightarrow> match_at key suf = None"
    then have m: "match_at key (c # cs) = None" by (metis append_Nil)
    have "\<forall>pre suf. cs = pre @ suf \<longrightarrow> match_at key suf = None"
      using a by (metis append_Cons)
    then have "re_search key cs = None" using Cons.IH by blast
    then show "re_search key (c # cs) = None" using m by simp
  qed
qed

lemma re_search_Some:
  "re_search key s = Some v \<longleftrightarrow>
     (\<exists>pre suf. s = pre @ suf \<and> match_at key suf = Some v \<and>
        (\<forall>pre' suf'. s = pre' @ suf' \<and> length pre' < length pre \<longrightarrow> match_at key suf' = None))"
proof (induction s)
  case Nil
  then show ?case by auto
next
  case (Cons c cs)
  show ?case
  proof (cases "match_at key (c # cs)")
    case (Some w)
    have "(\<exists>pre suf. c # cs = pre @ suf \<and> match_at key suf = Some v \<and>
        (\<forall>pre' suf'. c # cs = pre' @ suf' \<and> length pre' < length pre \<longrightarrow> match_at key suf' = None))
        \<longleftrightarrow> w = v"
    proof
      assume "\<exists>pre suf. c # cs = pre @ suf \<and> match_at key suf = Some v \<and>
        (\<forall>pre' suf'. c # cs = pre' @ suf' \<and> length pre' < length pre \<longrightarrow> match_at key suf' = None)"
      then obtain pre suf where eq: "c # cs = pre @ suf" and m: "match_at key suf = Some v"
        and l: "\<forall>pre' suf'. c # cs = pre' @ suf' \<and> length pre' < length pre \<longrightarrow> match_at key suf' = None"
        by blast
      show "w = v"
      proof (cases pre)
        case Nil
        then show ?thesis using eq m Some by simp
      next
        case (Cons p ps)
        then have "match_at key (c # cs) = None"
          using l [rule_format, of "[]" "c # cs"] by simp
        then show ?thesis using Some by simp
      qed
    next
      assume "w = v"
      then have "c # cs = [] @ (c # cs) \<and> match_at key (c # cs) = Some v \<and>
        (\<forall>pre' suf'. c # cs = pre' @ suf' \<and> length pre' < length ([]::string) \<longrightarrow> match_at key suf' = None)"
        using Some by simp
      then show "\<exists>pre suf. c # cs = pre @ suf \<and> match_at key suf = Some v \<and>
        (\<forall>pre' suf'. c # cs = pre' @ suf' \<and> length pre' < length pre \<longrightarrow> match_at key suf' = None)"
        by blast
    qed
    then show ?thesis using Some by simp
  next
    case None
    have "(\<exists>pre suf. c # cs = pre @ suf \<and> match_at key suf = Some v \<and>
        (\<forall>pre' suf'. c # cs = pre' @ suf' \<and> length pre' < length pre \<longrightarrow> match_at key suf' = None))
        \<longleftrightarrow> (\<exists>pre suf. cs = pre @ suf \<and> match_at key suf = Some v \<and>
        (\<forall>pre' suf'. cs = pre' @ suf' \<and> length pre' < length pre \<longrightarrow> match_at key suf' = None))"
      (is "?L \<longleftrightarrow> ?R")
    proof
      assume ?L
      then obtain pre suf where eq: "c # cs = pre @ suf" and m: "match_at key suf = Some v"
        and l: "\<forall>pre' suf'. c # cs = pre' @ suf' \<and> length pre' < length pre \<longrightarrow> match_at key suf' = None"
        by blast
      from eq m None obtain ps where pre: "pre = c # ps" and cs: "cs = ps @ suf"
        by (cases pre) auto
      have "\<forall>pre' suf'. cs = pre' @ suf' \<and> length pre' < length ps \<longrightarrow> match_at key suf' = None"
      proof (intro allI impI)
        fix pre' suf' assume h: "cs = pre' @ suf' \<and> length pre' < length ps"
        then have "c # cs = (c # pre') @ suf' \<and> length (c # pre') < length pre"
          using pre by simp
        then show "match_at key suf' = None" using l by blast
      qed
      then show ?R using cs m by blast
    next
      assume ?R
      then obtain ps suf where cs: "cs = ps @ suf" and m: "match_at key suf = Some v"
        and l: "\<forall>pre' suf'. cs = pre' @ suf' \<and> length pre' < length ps \<longrightarrow> match_at key suf' = None"
        by blast
      have "\<forall>pre' suf'. c # cs = pre' @ suf' \<and> length pre' < length (c # ps) \<longrightarrow> match_at key suf' = None"
      proof (intro allI impI)
        fix pre' suf' assume h: "c # cs = pre' @ suf' \<and> length pre' < length (c # ps)"
        show "match_at key suf' = None"
        proof (cases pre')
          case Nil
          then show ?thesis using h None by simp
        next
          case (Cons p qs)
          then have "cs = qs @ suf' \<and> length qs < length ps" using h by simp
          then show ?thesis using l by blast
        qed
      qed
      moreover have "c # cs = (c # ps) @ suf" using cs by simp
      ultimately show ?L using m by blast
    qed
    then show ?thesis using None Cons.IH by simp
  qed
qed

lemma re_search_first_assignment:
  "first_assignment key src v \<Longrightarrow> re_search key src = Some v"
  unfolding first_assignment_def re_search_Some match_at_iff
  by (metis match_at_iff not_Some_eq)

lemma re_search_no_assignment:
  "no_assignment key src \<longleftrightarrow> re_search key src = None"
  unfolding no_assignment_def re_search_None
  by (metis match_at_iff not_Some_eq)


text \<open>
  C4. For a notebook with at least one cell tagged \<open>mlops:config\<close>, \<open>extract_config\<close>
  returns a configuration read from the source text of the first such cell only: the
  model name is the quoted text of the leftmost \<open>MODEL_NAME = '...'\<close> assignment (either
  quote style) and \<open>default-model\<close> when the text has no such assignment; the version is
  the quoted text of the leftmost \<open>VERSION = '...'\<close> assignment and \<open>1\<close> when there is
  none. One of the two cases always applies.
\<close>

theorem extract_config_scans_first_config_cell:
  assumes "get_cells_by_tag nb ''mlops:config'' = c # cs"
  shows "\<exists>mn ver.
           extract_config nb = Inr \<lparr>cfg_model_name = mn, cfg_version = ver\<rparr> \<and>
           (\<forall>v. first_assignment ''MODEL_NAME'' (cell_source_text c) v \<longrightarrow> mn = v) \<and>
           (no_assignment ''MODEL_NAME'' (cell_source_text c) \<longrightarrow> mn = ''default-model'') \<and>
           (\<forall>v. first_assignment ''VERSION'' (cell_source_text c) v \<longrightarrow> ver = v) \<and>
           (no_assignment ''VERSION'' (cell_source_text c) \<longrightarrow> ver = ''1'') \<and>
           (no_assignment ''MODEL_NAME'' (cell_source_text c) \<or>
              (\<exists>v. first_assignment ''MODEL_NAME'' (cell_source_text c) v)) \<and>
           (no_assignment ''VERSION'' (cell_source_text c) \<or>
              (\<exists>v. first_assignment ''VERSION'' (cell_source_text c) v))"
proof -
  let ?src = "cell_source_text c"
  have total: "no_assignment key ?src \<or> (\<exists>v. first_assignment key ?src v)" for key
  proof (cases "re_search key ?src")
    case None
    then show ?thesis by (simp add: re_search_no_assignment)
  next
    case (Some v)
    then have "first_assignment key ?src v"
      unfolding first_assignment_def re_search_Some
      by (metis match_at_iff not_Some_eq)
    then show ?thesis by blast
  qed
  have val: "(\<forall>v. first_assignment key ?src v \<longrightarrow>
                 (case re_search key ?src of Some v \<Rightarrow> v | None \<Rightarrow> d) = v) \<and>
             (no_assignment key ?src \<longrightarrow> (case re_search key ?src of Some v \<Rightarrow> v | None \<Rightarrow> d) = d)"
    for key d
    by (auto simp: re_search_no_assignment dest: re_search_first_assignment)
  show ?thesis
    using assms val [of "''MODEL_NAME''" "''default-model''"] val [of "''VERSION''" "''1''"]
      total [of "''MODEL_NAME''"] total [of "''VERSION''"]
    by (simp add: extract_config_def Let_def)
qed


text \<open>A config cell that declares the model name and omits the version.\<close>

theorem extract_config_witness:
  "get_cells_by_tag nb_two_missing ''mlops:config'' =
     [tagged_cell ''mlops:config'' [''MODEL_NAME = 'iris-classifier' '']] \<and>
   first_assignment ''MODEL_NAME'' ''MODEL_NAME = 'iris-classifier' '' ''iris-classifier'' \<and>
   no_assignment ''VERSION'' ''MODEL_NAME = 'iris-classifier' '' \<and>
   extract_config nb_two_missing =
     Inr \<lparr>cfg_model_name = ''iris-classifier'', cfg_version = ''1''\<rparr>"
proof -
  let ?c = "tagged_cell ''mlops:config'' [''MODEL_NAME = 'iris-classifier' '']"
  have cells: "get_cells_by_tag nb_two_missing ''mlops:config'' = ?c # []"
    by (simp add: nb_eval nb_two_missing_def)
  have src: "cell_source_text ?c = ''MODEL_NAME = 'iris-classifier' ''"
    by (simp add: cell_source_text_def tagged_cell_def)
  have "assign_form ''MODEL_NAME'' ''MODEL_NAME = 'iris-classifier' '' ''iris-classifier''"
    unfolding assign_form_def
    by (rule exI [of _ "'' ''"], rule exI [of _ "'' ''"], rule exI [of _ "CHR 0x27"],
        rule exI [of _ "CHR 0x27"], rule exI [of _ "'' ''"])
       (simp add: is_space_def is_quote_def)
  then have fa: "first_assignment ''MODEL_NAME'' ''MODEL_NAME = 'iris-classifier' '' ''iris-classifier''"
    unfolding first_assignment_def
    by (intro exI [of _ "[]"] exI [of _ "''MODEL_NAME = 'iris-classifier' ''"]) simp
  have "re_search ''VERSION'' ''MODEL_NAME = 'iris-classifier' '' = None"
    by (simp add: match_at_def)
  then have na: "no_assignment ''VERSION'' ''MODEL_NAME = 'iris-classifier' ''"
    by (simp add: re_search_no_assignment)
  from extract_config_scans_first_config_cell [OF cells] fa na src cells
  show ?thesis by auto
qed


section \<open>The model server\<close>

lemma load_model_names_ok:
  "registry_names_ok models \<Longrightarrow> registry_names_ok (snd (load_model env models n body))"
  by (auto simp: registry_names_ok_def load_model_def split: sum.splits)

lemma predict_names_ok:
  "registry_names_ok models \<Longrightarrow> registry_names_ok (snd (predict models n d))"
  by (auto simp: registry_names_ok_def predict_def Let_def split: sum.splits option.splits)

lemma delete_model_names_ok:
  "registry_names_ok models \<Longrightarrow> registry_names_ok (snd (delete_model models n))"
  by (auto simp: registry_names_ok_def delete_model_def split: option.splits)

lemma empty_names_ok: "registry_names_ok Map.empty"
  by (simp add: registry_names_ok_def)


text \<open>
  C9. \<open>predict\<close> on a name that is not in the registry fails with status 404 and leaves
  the registry as it was. When \<open>predict\<close> on a loaded model succeeds, the registry
  differs from the old one in that entry's request count only, which is one more; the
  response carries the list the model predicted, the name the entry is stored under
  (which is the name kept in the entry, in every registry built by \<open>load_model\<close>) and
  the version kept in the entry.
\<close>

theorem predict_not_found_and_request_count:
  "(models name = None \<longrightarrow>
      (\<exists>detail. predict models name data = (Inl (HTTPException 404 detail), models))) \<and>
   (\<forall>entry resp models'.
      models name = Some entry \<and> predict models name data = (Inr resp, models') \<longrightarrow>
        models' = models(name \<mapsto> entry\<lparr>me_request_count := me_request_count entry + 1\<rparr>) \<and>
        (\<exists>p. me_model entry data = Inr p \<and> to_list p = Inr (pr_prediction resp)) \<and>
        pr_version resp = me_version entry \<and>
        pr_model_name resp = name \<and>
        (registry_names_ok models \<longrightarrow> pr_model_name resp = me_model_name entry))"
  by (auto simp: predict_def Let_def registry_names_ok_def split: sum.splits option.splits)

theorem predict_witness:
  "sample_registry ''nonexistent-model'' = None \<and>
   fst (predict sample_registry ''nonexistent-model'' [[1, 2, 3, 4]]) =
     Inl (HTTPException 404 (''Model '' @ [CHR 0x27] @ ''nonexistent-model'' @ [CHR 0x27] @ '' is not loaded.'')) \<and>
   snd (predict sample_registry ''nonexistent-model'' [[1, 2, 3, 4]]) = sample_registry \<and>
   sample_registry ''test-model'' = Some sample_entry \<and>
   registry_names_ok sample_registry \<and>
   predict sample_registry ''test-model'' [[5.1, 3.5, 1.4, 0.2]] =
     (Inr \<lparr>pr_prediction = [0, 1, 2], pr_model_name = ''test-model'', pr_version = ''1''\<rparr>,
      sample_registry(''test-model'' \<mapsto> sample_entry\<lparr>me_request_count := 5\<rparr>)) \<and>
   pr_model_name \<lparr>pr_prediction = [0, 1, 2::nat], pr_model_name = ''test-model'', pr_version = ''1''\<rparr>
     = me_model_name sample_entry"
proof -
  have p: "predict sample_registry ''test-model'' [[5.1, 3.5, 1.4, 0.2]] =
     (Inr \<lparr>pr_prediction = [0, 1, 2], pr_model_name = ''test-model'', pr_version = ''1''\<rparr>,
      sample_registry(''test-model'' \<mapsto> sample_entry\<lparr>me_request_count := 5\<rparr>))"
    by (simp add: predict_def sample_registry_def sample_entry_def)
  have n: "sample_registry ''nonexistent-model'' = None"
    by (simp add: sample_registry_def)
  have e: "sample_registry ''test-model'' = Some sample_entry"
    by (simp add: sample_registry_def)
  have ok: "registry_names_ok sample_registry"
    by (simp add: registry_names_ok_def sample_registry_def sample_entry_def)
  have q: "fst (predict sample_registry ''nonexistent-model'' [[1, 2, 3, 4]]) =
     Inl (HTTPException 404 (''Model '' @ [CHR 0x27] @ ''nonexistent-model'' @ [CHR 0x27] @ '' is not loaded.''))"
    by (simp add: predict_def n)
  from predict_not_found_and_request_count [of sample_registry "''nonexistent-model''" "[[1, 2, 3, 4]]"] n
  have "snd (predict sample_registry ''nonexistent-model'' [[1, 2, 3, 4]]) = sample_registry"
    by auto
  moreover
  from predict_not_found_and_request_count [of sample_registry "''test-model''" "[[5.1, 3.5, 1.4, 0.2]]"] e p ok
  have "pr_model_name \<lparr>pr_prediction = [0, 1, 2::nat], pr_model_name = ''test-model'', pr_version = ''1''\<rparr>
     = me_model_name sample_entry"
    by blast
  ultimately show ?thesis using p n e ok q by simp
qed



lemma load_model_Inl:
  "locate_and_load env body = Inl m \<Longrightarrow>
     load_model env models name body =
       (Inl (HTTPException 500 (''Failed to load model: '' @ m)), models)"
  by (simp add: load_model_def)

lemma load_model_Inr:
  "locate_and_load env body = Inr model \<Longrightarrow>
     load_model env models name body =
       (Inr (''Model '' @ [CHR 0x27] @ name @ [CHR 0x27] @ '' v'' @ lr_version body
               @ '' loaded successfully.''),
        models(name \<mapsto> \<lparr>me_model = model, me_model_name = name, me_version = lr_version body,
              me_mlflow_run_id = lr_mlflow_run_id body, me_loaded_at = load_time env,
              me_request_count = 0\<rparr>))"
  by (simp add: load_model_def)

lemma locate_download_fails:
  "download_artifacts env (lr_mlflow_run_id body) = Inl m \<Longrightarrow> locate_and_load env body = Inl m"
  by (simp add: locate_and_load_def)

lemma locate_file_load_fails:
  "download_artifacts env (lr_mlflow_run_id body) = Inr p \<Longrightarrow> path_is_dir env p = Inr False \<Longrightarrow>
   joblib_load env p = Inl m \<Longrightarrow> locate_and_load env body = Inl m"
  by (simp add: locate_and_load_def)

lemma locate_empty_dir:
  "download_artifacts env (lr_mlflow_run_id body) = Inr p \<Longrightarrow> path_is_dir env p = Inr True \<Longrightarrow>
   glob_joblib env p = Inr [] \<Longrightarrow> iterdir env p = Inr [] \<Longrightarrow>
   locate_and_load env body = Inl (''No model files in '' @ p)"
  by (simp add: locate_and_load_def)


text \<open>
  C10. If the download, the search for the model file or the deserialization fails,
  \<open>load_model\<close> answers with status 500 and the registry is the one it was called with,
  so \<open>predict\<close> answers as before; only when the model has been loaded is the entry of
  that name assigned, with a request count of zero.
\<close>

theorem load_model_failure_leaves_registry:
  "(\<forall>m. locate_and_load env body = Inl m \<longrightarrow>
      load_model env models name body =
        (Inl (HTTPException 500 (''Failed to load model: '' @ m)), models)) \<and>
   (\<forall>e. fst (load_model env models name body) = Inl e \<longrightarrow>
      (\<exists>m. locate_and_load env body = Inl m \<and> e = HTTPException 500 (''Failed to load model: '' @ m)) \<and>
      snd (load_model env models name body) = models \<and>
      (\<forall>n d. predict (snd (load_model env models name body)) n d = predict models n d)) \<and>
   (\<forall>msg. fst (load_model env models name body) = Inr msg \<longrightarrow>
      (\<exists>model. locate_and_load env body = Inr model \<and>
         snd (load_model env models name body) =
           models(name \<mapsto> \<lparr>me_model = model, me_model_name = name, me_version = lr_version body,
              me_mlflow_run_id = lr_mlflow_run_id body, me_loaded_at = load_time env,
              me_request_count = 0\<rparr>))) \<and>
   (\<forall>m. download_artifacts env (lr_mlflow_run_id body) = Inl m \<longrightarrow> locate_and_load env body = Inl m) \<and>
   (\<forall>p m. download_artifacts env (lr_mlflow_run_id body) = Inr p \<and> path_is_dir env p = Inr False \<and>
       joblib_load env p = Inl m \<longrightarrow> locate_and_load env body = Inl m) \<and>
   (\<forall>p. download_artifacts env (lr_mlflow_run_id body) = Inr p \<and> path_is_dir env p = Inr True \<and>
       glob_joblib env p = Inr [] \<and> iterdir env p = Inr [] \<longrightarrow>
       locate_and_load env body = Inl (''No model files in '' @ p))"
proof (cases "locate_and_load env body")
  case (Inl m)
  show ?thesis
    using Inl load_model_Inl [OF Inl, of models name]
      locate_download_fails [of env body] locate_file_load_fails [of env body]
      locate_empty_dir [of env body]
    by auto
next
  case (Inr model)
  show ?thesis
    using Inr load_model_Inr [OF Inr, of models name]
      locate_download_fails [of env body] locate_file_load_fails [of env body]
      locate_empty_dir [of env body]
    by auto
qed

theorem load_model_witness:
  "locate_and_load env_down load_req = Inl ''MLflow down'' \<and>
   load_model env_down sample_registry ''test-model'' load_req =
     (Inl (HTTPException 500 ''Failed to load model: MLflow down''), sample_registry) \<and>
   download_artifacts env_empty_dir (lr_mlflow_run_id load_req) = Inr ''/app/models/model'' \<and>
   path_is_dir env_empty_dir ''/app/models/model'' = Inr True \<and>
   glob_joblib env_empty_dir ''/app/models/model'' = Inr [] \<and>
   iterdir env_empty_dir ''/app/models/model'' = Inr [] \<and>
   load_model env_empty_dir sample_registry ''test-model'' load_req =
     (Inl (HTTPException 500 ''Failed to load model: No model files in /app/models/model''),
      sample_registry)"
proof -
  have d: "locate_and_load env_down load_req = Inl ''MLflow down''"
    by (simp add: locate_and_load_def env_down_def)
  have e: "download_artifacts env_empty_dir (lr_mlflow_run_id load_req) = Inr ''/app/models/model'' \<and>
           path_is_dir env_empty_dir ''/app/models/model'' = Inr True \<and>
           glob_joblib env_empty_dir ''/app/models/model'' = Inr [] \<and>
           iterdir env_empty_dir ''/app/models/model'' = Inr []"
    by (simp add: env_empty_dir_def)
  note a = load_model_failure_leaves_registry [of env_down load_req sample_registry "''test-model''"]
  note b = load_model_failure_leaves_registry [of env_empty_dir load_req sample_registry "''test-model''"]
  have 1: "load_model env_down sample_registry ''test-model'' load_req =
     (Inl (HTTPException 500 (''Failed to load model: '' @ ''MLflow down'')), sample_registry)"
    using a [THEN conjunct1, rule_format, OF d] .
  have l: "locate_and_load env_empty_dir load_req = Inl (''No model files in '' @ ''/app/models/model'')"
    using b [THEN conjunct2, THEN conjunct2, THEN conjunct2, THEN conjunct2, THEN conjunct2,
             rule_format, OF e] .
  have 2: "load_model env_empty_dir sample_registry ''test-model'' load_req =
     (Inl (HTTPException 500 (''Failed to load model: '' @ ''No model files in '' @ ''/app/models/model'')),
      sample_registry)"
    using b [THEN conjunct1, rule_format, OF l] by simp
  show ?thesis using d e 1 2 by simp
qed

section \<open>The pipeline task\<close>

subsection \<open>Running statements\<close>

lemma and_then_unfold:
  "and_then m f s = (case fst (m s) of Inl e \<Rightarrow> (Inl e, snd (m s)) | Inr x \<Rightarrow> f x (snd (m s)))"
  by (simp add: and_then_def split: prod.splits sum.splits)

lemma seq_unfold:
  "seq m n s = (case fst (m s) of Inl e \<Rightarrow> (Inl e, snd (m s)) | Inr x \<Rightarrow> n (snd (m s)))"
  by (simp add: seq_def and_then_unfold)

lemma ret_simp [simp]: "ret x s = (Inr x, s)" by (simp add: ret_def)
lemma raise_simp [simp]: "raise e s = (Inl e, s)" by (simp add: raise_def)
lemma read_state_simp [simp]: "read_state f s = (Inr (f s), s)" by (simp add: read_state_def)
lemma modify_simp [simp]: "modify f s = (Inr (), f s)" by (simp add: modify_def)
lemma now_utc_simp [simp]:
  "now_utc w s = (Inr (wall_clock w (n_clock s)), s\<lparr>n_clock := Suc (n_clock s)\<rparr>)"
  by (simp add: now_utc_def)

lemma catch_unfold:
  "catch_Exception m h s =
     (case fst (m s) of Inr x \<Rightarrow> (Inr x, snd (m s))
      | Inl e \<Rightarrow> if is_Exception e then h e (snd (m s)) else (Inl e, snd (m s)))"
  by (simp add: catch_Exception_def split: prod.splits sum.splits)

lemma with_tmpdir_unfold:
  "with_tmpdir w body s =
     (case tmpdir_create_fault w of
        Some m \<Rightarrow> (Inl (OtherException m), s)
      | None \<Rightarrow> (case tmpdir_cleanup_fault w of
           None \<Rightarrow> (fst (body s), snd (body s))
         | Some m \<Rightarrow> (Inl (OtherException m), snd (body s))))"
  by (simp add: with_tmpdir_def split: prod.splits option.splits)

lemmas io_unfold = and_then_unfold seq_unfold catch_unfold with_tmpdir_unfold

subsection \<open>The broadcaster call\<close>

lemma publish_phase_fst:
  "fst (publish_phase w pid n st lg s) =
     (case redis_fault_at w (n_redis s) of
        None \<Rightarrow> Inr ()
      | Some (PublishFails m) \<Rightarrow> Inl (OtherException m)
      | Some (RpushFails m) \<Rightarrow> Inl (OtherException m)
      | Some (ExpireFails m) \<Rightarrow> Inl (OtherException m))"
  by (simp add: publish_phase_def and_then_def Let_def split: option.splits redis_fault.splits)

lemma publish_phase_proj [simp]:
  "l_phases (snd (publish_phase w pid n st lg s)) = l_phases s"
  "l_metrics (snd (publish_phase w pid n st lg s)) = l_metrics s"
  "l_deployed (snd (publish_phase w pid n st lg s)) = l_deployed s"
  "db_pipelines (snd (publish_phase w pid n st lg s)) = db_pipelines s"
  "db_deployments (snd (publish_phase w pid n st lg s)) = db_deployments s"
  "n_redis (snd (publish_phase w pid n st lg s)) = Suc (n_redis s)"
  "n_db (snd (publish_phase w pid n st lg s)) = n_db s"
  "n_clock (snd (publish_phase w pid n st lg s)) = Suc (n_clock s)"
  by (simp_all add: publish_phase_def and_then_def Let_def split: option.splits redis_fault.splits)

subsection \<open>The state store call\<close>

lemma update_pipeline_db_fst:
  "fst (update_pipeline_db w pid a b c d e s) =
     (case db_fault_at w (n_db s) of None \<Rightarrow> Inr () | Some m \<Rightarrow> Inl (OtherException m))"
  by (simp add: update_pipeline_db_def Let_def split: option.splits)

lemma update_pipeline_db_proj [simp]:
  "l_phases (snd (update_pipeline_db w pid a b c d e s)) = l_phases s"
  "l_metrics (snd (update_pipeline_db w pid a b c d e s)) = l_metrics s"
  "l_deployed (snd (update_pipeline_db w pid a b c d e s)) = l_deployed s"
  "db_deployments (snd (update_pipeline_db w pid a b c d e s)) = db_deployments s"
  "n_redis (snd (update_pipeline_db w pid a b c d e s)) = n_redis s"
  "n_db (snd (update_pipeline_db w pid a b c d e s)) = Suc (n_db s)"
  "n_clock (snd (update_pipeline_db w pid a b c d e s)) = n_clock s"
  by (simp_all add: update_pipeline_db_def Let_def split: option.splits)

lemma update_pipeline_db_row:
  "db_pipelines (snd (update_pipeline_db w pid a b c d e s)) pid =
     (case db_fault_at w (n_db s) of
        None \<Rightarrow> map_option (update_row a b c d e) (db_pipelines s pid)
      | Some m \<Rightarrow> db_pipelines s pid)"
  by (simp add: update_pipeline_db_def Let_def split: option.splits)

subsection \<open>A phase transition\<close>

lemma phase_fst:
  "fst (phase w pid n st lg s) =
     (case redis_fault_at w (n_redis s) of
        None \<Rightarrow> (case db_fault_at w (n_db s) of None \<Rightarrow> Inr () | Some m \<Rightarrow> Inl (OtherException m))
      | Some (PublishFails m) \<Rightarrow> Inl (OtherException m)
      | Some (RpushFails m) \<Rightarrow> Inl (OtherException m)
      | Some (ExpireFails m) \<Rightarrow> Inl (OtherException m))"
  by (simp add: phase_def io_unfold publish_phase_fst update_pipeline_db_fst
      split: option.splits redis_fault.splits)

lemma phase_proj [simp]:
  "l_phases (snd (phase w pid n st lg s)) =
     l_phases s @ [\<lparr>pe_name = n, pe_status = st, pe_timestamp = wall_clock w (n_clock s), pe_logs = lg\<rparr>]"
  "l_metrics (snd (phase w pid n st lg s)) = l_metrics s"
  "l_deployed (snd (phase w pid n st lg s)) = l_deployed s"
  "db_deployments (snd (phase w pid n st lg s)) = db_deployments s"
  "n_redis (snd (phase w pid n st lg s)) = Suc (n_redis s)"
  "n_clock (snd (phase w pid n st lg s)) = Suc (Suc (n_clock s))"
  by (simp_all add: phase_def io_unfold publish_phase_fst update_pipeline_db_fst
      split: option.splits redis_fault.splits sum.splits)

lemma update_row_phases_only:
  "update_row None (Some ps) None None None row = row\<lparr>pl_phases := ps\<rparr>"
  by (simp add: update_row_def or_keep_def)

lemma phase_row:
  "fst (phase w pid n st lg s) = Inr () \<Longrightarrow>
   db_pipelines (snd (phase w pid n st lg s)) pid =
     map_option (\<lambda>row. row\<lparr>pl_phases := l_phases s @
        [\<lparr>pe_name = n, pe_status = st, pe_timestamp = wall_clock w (n_clock s), pe_logs = lg\<rparr>]\<rparr>)
       (db_pipelines s pid)"
  by (simp add: phase_def io_unfold publish_phase_fst update_pipeline_db_fst update_pipeline_db_row
       update_row_phases_only cong: map_option_cong
      split: option.splits redis_fault.splits sum.splits)

lemma phase_is_exception:
  "fst (phase w pid n st lg s) = Inl e \<Longrightarrow> is_Exception e"
  by (auto simp: phase_fst split: option.splits redis_fault.splits)

lemma phase_view_phase [simp]:
  "phase_view (snd (phase w pid n st lg s)) = phase_view s @ [(n, st)]"
  by (simp add: phase_view_def)

subsection \<open>When store and broadcaster work\<close>

lemma infra_okD:
  "infra_ok w \<Longrightarrow> db_fault_at w k = None"
  "infra_ok w \<Longrightarrow> redis_fault_at w k = None"
  "infra_ok w \<Longrightarrow> tmpdir_cleanup_fault w = None"
  by (simp_all add: infra_ok_def)

lemma phase_ok: "infra_ok w \<Longrightarrow> fst (phase w pid n st lg s) = Inr ()"
  by (simp add: phase_fst infra_okD)

lemma phase_row_ok:
  "infra_ok w \<Longrightarrow>
   db_pipelines (snd (phase w pid n st lg s)) pid =
     map_option (\<lambda>row. row\<lparr>pl_phases := l_phases s @
        [\<lparr>pe_name = n, pe_status = st, pe_timestamp = wall_clock w (n_clock s), pe_logs = lg\<rparr>]\<rparr>)
       (db_pipelines s pid)"
  by (simp add: phase_row phase_ok)

lemmas stage_defs = check_shutdown_def download_phase_def validate_phase_def execute_phase_def
  register_phase_def save_deployment_def deploy_phase_def mark_success_def try_body_def
  on_shutdown_def on_exception_def run_pipeline_def

lemmas healthy_simps = io_unfold phase_ok phase_row_ok infra_okD publish_phase_fst update_pipeline_db_fst
  update_pipeline_db_row start_state_def

subsection \<open>Rules for triples\<close>

lemma tripleI: "(\<And>s. P s \<Longrightarrow> Q (fst (m s)) (snd (m s))) \<Longrightarrow> triple P m Q"
  by (simp add: triple_def)

lemma tripleD: "triple P m Q \<Longrightarrow> P s \<Longrightarrow> Q (fst (m s)) (snd (m s))"
  by (simp add: triple_def)

lemma post_simps [simp]:
  "post N E (Inr x) s = N x s"
  "post N E (Inl e) s = E e s"
  by (simp_all add: post_def)

lemma triple_and_then:
  assumes "triple P m (post R E)" and "\<And>x. triple (R x) (f x) (post N E)"
  shows "triple P (and_then m f) (post N E)"
proof (rule tripleI)
  fix s assume "P s"
  then have m: "post R E (fst (m s)) (snd (m s))" using assms(1) by (rule tripleD [rotated])
  show "post N E (fst (and_then m f s)) (snd (and_then m f s))"
  proof (cases "fst (m s)")
    case (Inl e)
    then show ?thesis using m by (simp add: and_then_unfold)
  next
    case (Inr x)
    then have "R x (snd (m s))" using m by simp
    then have "post N E (fst (f x (snd (m s)))) (snd (f x (snd (m s))))"
      using assms(2) [of x] by (rule tripleD [rotated])
    then show ?thesis using Inr by (simp add: and_then_unfold)
  qed
qed

lemma triple_seq:
  assumes "triple P m (post (\<lambda>_. R) E)" and "triple R n (post N E)"
  shows "triple P (seq m n) (post N E)"
  unfolding seq_def using assms by (rule triple_and_then)

lemma triple_catch:
  assumes "triple P m (post N H)"
    and "\<And>e. is_Exception e \<Longrightarrow> triple (H e) (h e) (post N E)"
    and "\<And>e s. \<not> is_Exception e \<Longrightarrow> H e s \<Longrightarrow> E e s"
  shows "triple P (catch_Exception m h) (post N E)"
proof (rule tripleI)
  fix s assume "P s"
  then have m: "post N H (fst (m s)) (snd (m s))" using assms(1) by (rule tripleD [rotated])
  show "post N E (fst (catch_Exception m h s)) (snd (catch_Exception m h s))"
  proof (cases "fst (m s)")
    case (Inr x)
    then show ?thesis using m by (simp add: catch_unfold)
  next
    case (Inl e)
    then have H: "H e (snd (m s))" using m by simp
    show ?thesis
    proof (cases "is_Exception e")
      case True
      have "post N E (fst (h e (snd (m s)))) (snd (h e (snd (m s))))"
        using assms(2) [OF True] H by (rule tripleD)
      then show ?thesis using Inl True by (simp add: catch_unfold)
    next
      case False
      then show ?thesis using Inl H assms(3) by (simp add: catch_unfold)
    qed
  qed
qed

lemma triple_with_tmpdir:
  assumes "triple P body (post N E)"
    and "\<And>s m. P s \<Longrightarrow> tmpdir_create_fault w = Some m \<Longrightarrow> E (OtherException m) s"
    and "\<And>x s m. N x s \<Longrightarrow> tmpdir_cleanup_fault w = Some m \<Longrightarrow> E (OtherException m) s"
    and "\<And>e s m. E e s \<Longrightarrow> tmpdir_cleanup_fault w = Some m \<Longrightarrow> E (OtherException m) s"
  shows "triple P (with_tmpdir w body) (post N E)"
proof (rule tripleI)
  fix s assume P: "P s"
  then have b: "post N E (fst (body s)) (snd (body s))" using assms(1) by (rule tripleD [rotated])
  show "post N E (fst (with_tmpdir w body s)) (snd (with_tmpdir w body s))"
  proof (cases "tmpdir_create_fault w")
    case (Some m)
    then show ?thesis using P assms(2) by (simp add: with_tmpdir_unfold)
  next
    case None
    show ?thesis
    proof (cases "tmpdir_cleanup_fault w")
      case N2: None
      then show ?thesis using None b by (simp add: with_tmpdir_unfold)
    next
      case (Some m)
      have "E (OtherException m) (snd (body s))"
        using b assms(3) [OF _ Some] assms(4) [OF _ Some] by (cases "fst (body s)") auto
      then show ?thesis using None Some by (simp add: with_tmpdir_unfold)
    qed
  qed
qed

lemma triple_check_shutdown:
  assumes "\<And>s. P s \<Longrightarrow> shutting_down_at w k \<Longrightarrow> E (SystemExit ''Worker shutting down'') s"
  shows "triple P (check_shutdown w k) (post (\<lambda>_. P) E)"
  using assms by (auto simp: triple_def check_shutdown_def)

text \<open>The try block, stage by stage.\<close>

lemma try_body_triple:
  assumes a0: "triple P (and_then (now_utc w) (\<lambda>ts.
                  update_pipeline_db w pid (Some ''running'') None None (Some ts) None))
                 (post (\<lambda>_. A1) E)"
    and a1: "triple A1 (download_phase w pid rid) (post A2 E)"
    and s0: "\<And>nb s. A2 nb s \<Longrightarrow> shutting_down_at w 0 \<Longrightarrow> E (SystemExit ''Worker shutting down'') s"
    and a2: "\<And>nb. triple (A2 nb) (validate_phase w pid nb) (post (A3 nb) E)"
    and s1: "\<And>nb cfg s. A3 nb cfg s \<Longrightarrow> shutting_down_at w 1 \<Longrightarrow>
                E (SystemExit ''Worker shutting down'') s"
    and a3: "\<And>nb cfg. triple (A3 nb cfg) (phase w pid ''execute'' ''running'' [])
                (post (\<lambda>_. A4 nb cfg) E)"
    and c0: "\<And>nb cfg s m. A4 nb cfg s \<Longrightarrow> tmpdir_create_fault w = Some m \<Longrightarrow>
                E (OtherException m) s"
    and a4: "\<And>nb cfg. triple (A4 nb cfg) (execute_phase w pid) (post (\<lambda>_. A5 nb cfg) E)"
    and s2: "\<And>nb cfg s. A5 nb cfg s \<Longrightarrow> shutting_down_at w 2 \<Longrightarrow>
                E (SystemExit ''Worker shutting down'') s"
    and a5: "\<And>nb cfg. triple (A5 nb cfg) (register_phase w pid)
                (post (\<lambda>(acc, mrid). A6 nb cfg acc mrid) E)"
    and a6: "\<And>nb cfg acc mrid. triple (A6 nb cfg acc mrid)
                (deploy_phase w st pid cfg acc mrid) (post (\<lambda>_. A7 nb cfg) E)"
    and c1: "\<And>nb cfg s m. A7 nb cfg s \<Longrightarrow> tmpdir_cleanup_fault w = Some m \<Longrightarrow>
                E (OtherException m) s"
    and c2: "\<And>e s m. E e s \<Longrightarrow> tmpdir_cleanup_fault w = Some m \<Longrightarrow> E (OtherException m) s"
    and a7: "\<And>nb cfg. triple (A7 nb cfg) (mark_success w pid) (post N E)"
  shows "triple P (try_body w st pid rid sha) (post N E)"
  unfolding try_body_def
proof (rule triple_seq [OF a0], rule triple_and_then [OF a1])
  fix nb
  show "triple (A2 nb)
          (seq (check_shutdown w 0)
            (and_then (validate_phase w pid nb)
              (\<lambda>config.
                  seq (check_shutdown w 1)
                   (seq (phase w pid ''execute'' ''running'' [])
                     (seq (with_tmpdir w
                            (seq (execute_phase w pid)
                              (seq (check_shutdown w 2)
                                (and_then (register_phase w pid)
                                  (\<lambda>(accuracy, mlflow_run_id).
                                      deploy_phase w st pid config accuracy mlflow_run_id)))))
                       (mark_success w pid))))))
          (post N E)"
  proof (rule triple_seq [OF triple_check_shutdown], erule (1) s0,
         rule triple_and_then [OF a2])
    fix cfg
    have inner: "triple (A4 nb cfg)
            (seq (execute_phase w pid)
              (seq (check_shutdown w 2)
                (and_then (register_phase w pid)
                  (\<lambda>(accuracy, mlflow_run_id).
                      deploy_phase w st pid cfg accuracy mlflow_run_id))))
            (post (\<lambda>_. A7 nb cfg) E)"
    proof (rule triple_seq [OF a4], rule triple_seq [OF triple_check_shutdown], erule (1) s2,
           rule triple_and_then [OF a5])
      fix x :: "real \<times> string"
      show "triple (case x of (acc, mrid) \<Rightarrow> A6 nb cfg acc mrid)
              (case x of (accuracy, mlflow_run_id) \<Rightarrow>
                 deploy_phase w st pid cfg accuracy mlflow_run_id)
              (post (\<lambda>_. A7 nb cfg) E)"
        using a6 by (cases x) simp
    qed
    have tmp: "triple (A4 nb cfg)
            (with_tmpdir w (seq (execute_phase w pid)
              (seq (check_shutdown w 2)
                (and_then (register_phase w pid)
                  (\<lambda>(accuracy, mlflow_run_id).
                      deploy_phase w st pid cfg accuracy mlflow_run_id)))))
            (post (\<lambda>_. A7 nb cfg) E)"
      by (rule triple_with_tmpdir [OF inner]) (auto intro: c0 c1 c2)
    show "triple (A3 nb cfg)
            (seq (check_shutdown w 1)
              (seq (phase w pid ''execute'' ''running'' [])
                (seq (with_tmpdir w
                       (seq (execute_phase w pid)
                         (seq (check_shutdown w 2)
                           (and_then (register_phase w pid)
                             (\<lambda>(accuracy, mlflow_run_id).
                                 deploy_phase w st pid cfg accuracy mlflow_run_id)))))
                  (mark_success w pid))))
            (post N E)"
      by (rule triple_seq [OF triple_check_shutdown], erule (1) s1,
          rule triple_seq [OF a3], rule triple_seq [OF tmp], rule a7)
  qed
qed

lemma run_pipeline_unfold:
  "run_pipeline w st pid rid sha ext =
     (case fst (try_body w st pid rid sha (start_state ext)) of
        Inr r \<Rightarrow> (Inr r, snd (try_body w st pid rid sha (start_state ext)))
      | Inl e \<Rightarrow>
          if is_Exception e
          then on_exception w pid e (snd (try_body w st pid rid sha (start_state ext)))
          else on_shutdown w pid (snd (try_body w st pid rid sha (start_state ext))))"
  by (cases "try_body w st pid rid sha (start_state ext)")
     (simp add: run_pipeline_def split: sum.splits exc.splits)

lemma run_pipeline_triple:
  assumes t: "triple P (try_body w st pid rid sha) (post N E)"
    and p: "P (start_state ext)"
    and h1: "\<And>e. \<not> is_Exception e \<Longrightarrow> triple (E e) (on_shutdown w pid) Q"
    and h2: "\<And>e. is_Exception e \<Longrightarrow> triple (E e) (on_exception w pid e) Q"
    and n: "\<And>r s. N r s \<Longrightarrow> Q (Inr r) s"
  shows "Q (fst (run_pipeline w st pid rid sha ext)) (snd (run_pipeline w st pid rid sha ext))"
proof -
  let ?b = "try_body w st pid rid sha (start_state ext)"
  have b: "post N E (fst ?b) (snd ?b)" using t p by (rule tripleD)
  show ?thesis
  proof (cases "fst ?b")
    case (Inr r)
    then show ?thesis using b n by (simp add: run_pipeline_unfold)
  next
    case (Inl e)
    then have E: "E e (snd ?b)" using b by simp
    show ?thesis
    proof (cases "is_Exception e")
      case True
      then show ?thesis
        using tripleD [OF h2 [OF True] E] Inl by (simp add: run_pipeline_unfold)
    next
      case False
      then show ?thesis
        using tripleD [OF h1 [OF False] E] Inl by (simp add: run_pipeline_unfold)
    qed
  qed
qed


lemma publish_phase_published:
  "redis_published (snd (publish_phase w pid n st lg s)) =
     (case redis_fault_at w (n_redis s) of
        Some (PublishFails m) \<Rightarrow> redis_published s
      | _ \<Rightarrow> redis_published s @
          [(logs_channel pid, \<lparr>ev_pipeline_id = pid, ev_phase = n, ev_status = st, ev_logs = lg,
                                ev_timestamp = wall_clock w (n_clock s)\<rparr>)])"
  by (simp add: publish_phase_def and_then_def Let_def split: option.splits redis_fault.splits)

lemma update_pipeline_db_published [simp]:
  "redis_published (snd (update_pipeline_db w pid a b c d e s)) = redis_published s"
  by (simp add: update_pipeline_db_def Let_def split: option.splits)

lemma phase_published:
  "redis_published (snd (phase w pid n st lg s)) =
     (case redis_fault_at w (n_redis s) of
        Some (PublishFails m) \<Rightarrow> redis_published s
      | _ \<Rightarrow> redis_published s @
          [(logs_channel pid, \<lparr>ev_pipeline_id = pid, ev_phase = n, ev_status = st, ev_logs = lg,
                                ev_timestamp = wall_clock w (Suc (n_clock s))\<rparr>)])"
  by (simp add: phase_def io_unfold publish_phase_fst publish_phase_published
      split: option.splits redis_fault.splits sum.splits)

lemma phase_n_db:
  "n_db (snd (phase w pid n st lg s)) =
     (case redis_fault_at w (n_redis s) of None \<Rightarrow> Suc (n_db s) | Some f \<Rightarrow> n_db s)"
  by (simp add: phase_def io_unfold publish_phase_fst
      split: option.splits redis_fault.splits sum.splits)

lemma phase_row_general:
  "db_pipelines (snd (phase w pid n st lg s)) pid =
     (case fst (phase w pid n st lg s) of
        Inr u \<Rightarrow> map_option (\<lambda>row. row\<lparr>pl_phases := l_phases s @
            [\<lparr>pe_name = n, pe_status = st, pe_timestamp = wall_clock w (n_clock s), pe_logs = lg\<rparr>]\<rparr>)
           (db_pipelines s pid)
      | Inl e \<Rightarrow> db_pipelines s pid)"
  by (simp add: phase_def io_unfold publish_phase_fst update_pipeline_db_fst update_pipeline_db_row
       update_row_phases_only cong: map_option_cong
      split: option.splits redis_fault.splits sum.splits)


lemma triple_weaken_exc:
  assumes "triple P m (post N E')" and "\<And>e s. E' e s \<Longrightarrow> E e s"
  shows "triple P m (post N E)"
proof (rule tripleI)
  fix s assume "P s"
  then have "post N E' (fst (m s)) (snd (m s))" using assms(1) by (rule tripleD [rotated])
  then show "post N E (fst (m s)) (snd (m s))"
    using assms(2) by (cases "fst (m s)") auto
qed


lemma on_shutdown_not_success: "fst (on_shutdown w pid s) \<noteq> Inr (RunSuccess m)"
  by (simp add: on_shutdown_def io_unfold split: sum.splits)

lemma on_exception_not_success: "fst (on_exception w pid e s) \<noteq> Inr (RunSuccess m)"
  by (simp add: on_exception_def io_unfold split: sum.splits)


subsection \<open>Evaluating the sample worlds\<close>

lemmas world_defs = w_ok_def w_fetch_fails_redis_down_def w_shutdown_def w_no_training_def
  w_first_publish_fails_def w_load_fails_def w_low_accuracy_def st0_def row0_def ext0_def

lemmas run_eval = stage_defs io_unfold phase_fst phase_n_db phase_row_general publish_phase_fst
  update_pipeline_db_fst update_pipeline_db_row start_state_def update_row_def or_keep_def

lemma nb_ok_valid: "validate_required_tags nb_ok = Inr ()"
  by (simp add: validate_required_tags_def nb_eval nb_ok_def)

lemma nb_ok_config:
  "extract_config nb_ok = Inr \<lparr>cfg_model_name = ''iris-classifier'', cfg_version = ''1''\<rparr>"
  by (simp add: extract_config_def nb_eval nb_ok_def cell_source_text_def match_at_def
      is_space_def is_quote_def)

lemma nb_no_training_missing: "get_cells_by_tag nb_no_training ''mlops:training'' = []"
  by (simp add: nb_eval nb_no_training_def)

lemma sample_infra_ok:
  "infra_ok w_ok" "infra_ok w_shutdown" "infra_ok w_no_training" "infra_ok w_load_fails"
  "infra_ok w_low_accuracy"
  by (simp_all add: infra_ok_def world_defs)

subsection \<open>Runs in which the state store and the broadcaster work\<close>

lemmas view_defs = at_phase_def in_phase_def failed_at_def completed_def main_phases_def

lemma phase_row_exists:
  "infra_ok w \<Longrightarrow> db_pipelines s pid \<noteq> None \<Longrightarrow> db_pipelines (snd (phase w pid n st lg s)) pid \<noteq> None"
  by (simp add: phase_row_ok)

lemma abortedI_exc:
  "is_Exception e \<Longrightarrow> k < 4 \<Longrightarrow> in_phase pid k s \<Longrightarrow> aborted w pid e s"
  by (auto simp: aborted_def in_phase_def)

lemma abortedI_exit:
  "k < 3 \<Longrightarrow> shutting_down_at w k \<Longrightarrow> k' = Suc k \<Longrightarrow> at_phase pid k' s \<Longrightarrow>
     aborted w pid (SystemExit m) s"
  by (auto simp: aborted_def at_phase_def)

lemma h_start:
  assumes "infra_ok w"
  shows "triple (\<lambda>s. db_pipelines s pid \<noteq> None \<and> l_phases s = [])
     (and_then (now_utc w) (\<lambda>ts.
         update_pipeline_db w pid (Some ''running'') None None (Some ts) None))
     (post (\<lambda>_. at_phase pid 0) (aborted w pid))"
  using assms
  by (auto simp: triple_def post_def healthy_simps view_defs phase_view_def split: sum.splits)

lemma h_download:
  assumes "infra_ok w"
  shows "triple (at_phase pid 0) (download_phase w pid rid)
     (post (\<lambda>_. at_phase pid 1) (\<lambda>e s. is_Exception e \<and> in_phase pid 0 s))"
  using assms
  by (auto simp: triple_def post_def download_phase_def healthy_simps view_defs
      split: sum.splits option.splits)

lemma h_validate:
  assumes "infra_ok w"
  shows "triple (at_phase pid 1) (validate_phase w pid nb)
     (post (\<lambda>_. at_phase pid 2) (\<lambda>e s. is_Exception e \<and> in_phase pid 1 s))"
  using assms
  by (auto simp: triple_def post_def validate_phase_def healthy_simps view_defs
        validate_required_tags_def extract_config_def Let_def
      split: sum.splits option.splits if_splits list.splits)

lemma h_execute_running:
  assumes "infra_ok w"
  shows "triple (at_phase pid 2) (phase w pid ''execute'' ''running'' [])
     (post (\<lambda>_. in_phase pid 2) (aborted w pid))"
  using assms
  by (auto simp: triple_def post_def healthy_simps view_defs)

lemma h_execute:
  assumes "infra_ok w"
  shows "triple (in_phase pid 2) (execute_phase w pid)
     (post (\<lambda>_. at_phase pid 3) (\<lambda>e s. is_Exception e \<and> in_phase pid 2 s))"
  using assms
  by (auto simp: triple_def post_def execute_phase_def healthy_simps view_defs
      split: sum.splits option.splits)

lemma h_register:
  assumes "infra_ok w"
  shows "triple (at_phase pid 3) (register_phase w pid)
     (post (\<lambda>(acc, mrid). at_phase pid 4) (\<lambda>e s. is_Exception e \<and> in_phase pid 3 s))"
  using assms
  by (cases "mlflow_register w")
     (auto simp: triple_def post_def register_phase_def healthy_simps view_defs phase_view_def
      split: sum.splits option.splits)

lemma h_deploy:
  assumes "infra_ok w"
  shows "triple (at_phase pid 4) (deploy_phase w st pid cfg acc mrid)
     (post (\<lambda>_. after_deploy pid) (aborted w pid))"
  using assms
  by (cases "model_server_load w"; cases "deployment_commit_fault w")
     (auto simp: triple_def post_def deploy_phase_def save_deployment_def healthy_simps view_defs
        phase_view_def after_deploy_def deploy_views_def)

lemma h_mark_success:
  assumes "infra_ok w"
  shows "triple (after_deploy pid) (mark_success w pid) (post (succeeded pid) (aborted w pid))"
  using assms
  by (auto simp: triple_def post_def mark_success_def healthy_simps after_deploy_def succeeded_def
        run_stored_def update_row_def or_keep_def phase_view_def)

lemma h_on_shutdown:
  assumes "infra_ok w" "\<not> is_Exception e"
  shows "triple (aborted w pid e) (on_shutdown w pid) (run_ended w pid)"
  using assms
  by (auto simp: triple_def on_shutdown_def healthy_simps aborted_def run_ended_def
        run_stored_def update_row_def or_keep_def phase_view_def)

lemma h_on_exception:
  assumes "infra_ok w" "is_Exception e"
  shows "triple (aborted w pid e) (on_exception w pid e) (run_ended w pid)"
  using assms
  by (auto simp: triple_def on_exception_def healthy_simps aborted_def run_ended_def
        run_stored_def update_row_def or_keep_def phase_view_def)



lemma healthy_try_body:
  assumes ok: "infra_ok w"
  shows "triple (\<lambda>s. db_pipelines s pid \<noteq> None \<and> l_phases s = [])
           (try_body w st pid rid sha) (post (succeeded pid) (aborted w pid))"
proof (rule try_body_triple [where ?A1.0 = "at_phase pid 0" and ?A2.0 = "\<lambda>_. at_phase pid 1"
        and ?A3.0 = "\<lambda>_ _. at_phase pid 2" and ?A4.0 = "\<lambda>_ _. in_phase pid 2"
        and ?A5.0 = "\<lambda>_ _. at_phase pid 3" and ?A6.0 = "\<lambda>_ _ _ _. at_phase pid 4"
        and ?A7.0 = "\<lambda>_ _. after_deploy pid"])
  show "triple (\<lambda>s. db_pipelines s pid \<noteq> None \<and> l_phases s = [])
     (and_then (now_utc w) (\<lambda>ts.
         update_pipeline_db w pid (Some ''running'') None None (Some ts) None))
     (post (\<lambda>_. at_phase pid 0) (aborted w pid))"
    by (rule h_start [OF ok])
  show "triple (at_phase pid 0) (download_phase w pid rid)
          (post (\<lambda>_. at_phase pid 1) (aborted w pid))"
    by (rule triple_weaken_exc [OF h_download [OF ok]]) (auto intro: abortedI_exc [of _ 0])
  show "\<And>nb. triple (at_phase pid 1) (validate_phase w pid nb)
          (post (\<lambda>_. at_phase pid 2) (aborted w pid))"
    by (rule triple_weaken_exc [OF h_validate [OF ok]]) (auto intro: abortedI_exc [of _ 1])
  show "\<And>nb cfg. triple (at_phase pid 2) (phase w pid ''execute'' ''running'' [])
          (post (\<lambda>_. in_phase pid 2) (aborted w pid))"
    by (rule h_execute_running [OF ok])
  show "\<And>nb cfg. triple (in_phase pid 2) (execute_phase w pid)
          (post (\<lambda>_. at_phase pid 3) (aborted w pid))"
    by (rule triple_weaken_exc [OF h_execute [OF ok]]) (auto intro: abortedI_exc [of _ 2])
  show "\<And>nb cfg. triple (at_phase pid 3) (register_phase w pid)
          (post (\<lambda>(acc, mrid). at_phase pid 4) (aborted w pid))"
    by (rule triple_weaken_exc [OF h_register [OF ok]]) (auto intro: abortedI_exc [of _ 3])
  show "\<And>nb cfg acc mrid. triple (at_phase pid 4) (deploy_phase w st pid cfg acc mrid)
          (post (\<lambda>_. after_deploy pid) (aborted w pid))"
    by (rule h_deploy [OF ok])
  show "\<And>nb cfg. triple (after_deploy pid) (mark_success w pid)
          (post (succeeded pid) (aborted w pid))"
    by (rule h_mark_success [OF ok])
  show "\<And>nb s. at_phase pid 1 s \<Longrightarrow> shutting_down_at w 0 \<Longrightarrow>
          aborted w pid (SystemExit ''Worker shutting down'') s"
    by (rule abortedI_exit [of 0 _ 1]) simp_all
  show "\<And>nb cfg s. at_phase pid 2 s \<Longrightarrow> shutting_down_at w 1 \<Longrightarrow>
          aborted w pid (SystemExit ''Worker shutting down'') s"
    by (rule abortedI_exit [of 1 _ 2]) simp_all
  show "\<And>nb cfg s. at_phase pid 3 s \<Longrightarrow> shutting_down_at w 2 \<Longrightarrow>
          aborted w pid (SystemExit ''Worker shutting down'') s"
    by (rule abortedI_exit [of 2 _ 3]) simp_all
  show "\<And>nb cfg s m. in_phase pid 2 s \<Longrightarrow> tmpdir_create_fault w = Some m \<Longrightarrow>
          aborted w pid (OtherException m) s"
    by (rule abortedI_exc [of _ 2]) simp_all
  show "\<And>nb cfg s m. after_deploy pid s \<Longrightarrow> tmpdir_cleanup_fault w = Some m \<Longrightarrow>
          aborted w pid (OtherException m) s"
    using ok by (simp add: infra_okD)
  show "\<And>e s m. aborted w pid e s \<Longrightarrow> tmpdir_cleanup_fault w = Some m \<Longrightarrow>
          aborted w pid (OtherException m) s"
    using ok by (simp add: infra_okD)
qed

lemma healthy_run:
  assumes ok: "infra_ok w" and row: "db_pipelines ext pid = Some row"
  shows "run_ended w pid (fst (run_pipeline w st pid rid sha ext))
           (snd (run_pipeline w st pid rid sha ext))"
proof (rule run_pipeline_triple [OF healthy_try_body [OF ok]])
  show "db_pipelines (start_state ext) pid \<noteq> None \<and> l_phases (start_state ext) = []"
    using row by (simp add: start_state_def)
  show "\<And>e. \<not> is_Exception e \<Longrightarrow> triple (aborted w pid e) (on_shutdown w pid) (run_ended w pid)"
    by (rule h_on_shutdown [OF ok])
  show "\<And>e. is_Exception e \<Longrightarrow> triple (aborted w pid e) (on_exception w pid e) (run_ended w pid)"
    by (rule h_on_exception [OF ok])
  show "\<And>r s. succeeded pid r s \<Longrightarrow> run_ended w pid (Inr r) s"
    by (auto simp: succeeded_def run_ended_def)
qed

lemma healthy_on_exception_result:
  "infra_ok w \<Longrightarrow> fst (on_exception w pid e s) = Inr (RunError (str_exc e))"
  by (simp add: on_exception_def healthy_simps)

lemma failed_entries_of_success_view:
  assumes "d \<in> deploy_views" and "(n, t) \<in> set (completed main_phases @ d)" and "t = ''failed''"
  shows "n = ''deploy''"
  using assms by (auto simp: deploy_views_def completed_def main_phases_def)


text \<open>
  C1, as amended. When no call of the state store, of the broadcaster and of the removal
  of the temporary directory raises and the row of the run exists, \<open>run_pipeline\<close>
  returns (no exception leaves it) and the row holds the status of the result, an end
  time and the phase list of the task. If a phase raised, the phase list is the one of
  the phases completed before, the \<open>running\<close> entry of the phase that raised and a final
  \<open>failed\<close> entry named \<open>error\<close> that carries the message: no later phase was started.
  If no shutdown is signalled, the status is \<open>success\<close> exactly when no entry other than
  a deploy entry is \<open>failed\<close>. Every exception that the \<open>try\<close> block raises is turned
  into the error result that carries its message.
\<close>

theorem run_pipeline_records_failure:
  assumes ok: "infra_ok w" and row: "db_pipelines ext pid = Some row"
  shows "\<exists>r. fst (run_pipeline w st pid rid sha ext) = Inr r \<and>
           run_stored pid r (snd (run_pipeline w st pid rid sha ext)) \<and>
           (\<forall>msg. r = RunError msg \<longrightarrow>
              (\<exists>k<4. phase_view (snd (run_pipeline w st pid rid sha ext)) =
                        failed_at k @ [(''error'', ''failed'')]) \<and>
              pe_logs (last (l_phases (snd (run_pipeline w st pid rid sha ext)))) = msg) \<and>
           (r = RunShutdown \<longrightarrow>
              (\<exists>k<3. shutting_down_at w k \<and>
                 phase_view (snd (run_pipeline w st pid rid sha ext)) =
                   completed (take (Suc k) main_phases))) \<and>
           (\<forall>m. r = RunSuccess m \<longrightarrow>
              (\<exists>d \<in> deploy_views.
                 phase_view (snd (run_pipeline w st pid rid sha ext)) = completed main_phases @ d)) \<and>
           ((\<forall>k. \<not> shutting_down_at w k) \<longrightarrow>
              (result_status r = ''success'' \<longleftrightarrow>
                 (\<forall>(n, t) \<in> set (phase_view (snd (run_pipeline w st pid rid sha ext))).
                    t = ''failed'' \<longrightarrow> n = ''deploy''))) \<and>
           (\<forall>e. fst (try_body w st pid rid sha (start_state ext)) = Inl e \<and> is_Exception e
                \<longrightarrow> r = RunError (str_exc e))"
proof -
  let ?s = "snd (run_pipeline w st pid rid sha ext)"
  from healthy_run [OF ok row, of st rid sha] obtain r where
    r: "fst (run_pipeline w st pid rid sha ext) = Inr r" and st: "run_stored pid r ?s"
    and e: "\<forall>msg. r = RunError msg \<longrightarrow>
           (\<exists>k<4. phase_view ?s = failed_at k @ [(''error'', ''failed'')]) \<and>
           pe_logs (last (l_phases ?s)) = msg"
    and x: "r = RunShutdown \<longrightarrow>
           (\<exists>k<3. shutting_down_at w k \<and> phase_view ?s = completed (take (Suc k) main_phases))"
    and g: "\<forall>m. r = RunSuccess m \<longrightarrow>
           (\<exists>d \<in> deploy_views. phase_view ?s = completed main_phases @ d)"
    unfolding run_ended_def by blast
  have iff: "result_status r = ''success'' \<longleftrightarrow>
          (\<forall>(n, t) \<in> set (phase_view ?s). t = ''failed'' \<longrightarrow> n = ''deploy'')"
    if ns: "\<forall>k. \<not> shutting_down_at w k"
  proof (cases r)
    case (RunSuccess m)
    then obtain d where "d \<in> deploy_views" "phase_view ?s = completed main_phases @ d"
      using g by blast
    then show ?thesis
      using RunSuccess failed_entries_of_success_view [of d] by auto
  next
    case RunShutdown
    then show ?thesis using x ns by blast
  next
    case (RunError msg)
    then obtain k where "phase_view ?s = failed_at k @ [(''error'', ''failed'')]"
      using e by blast
    then have "(''error'', ''failed'') \<in> set (phase_view ?s)" by simp
    then have "\<not> (\<forall>(n, t) \<in> set (phase_view ?s). t = ''failed'' \<longrightarrow> n = ''deploy'')"
      by (auto intro!: bexI [of _ "(''error'', ''failed'')"])
    then show ?thesis using RunError by simp
  qed
  have link: "r = RunError (str_exc e')"
    if "fst (try_body w st pid rid sha (start_state ext)) = Inl e'" "is_Exception e'" for e'
    using that r healthy_on_exception_result [OF ok, of pid e']
    by (simp add: run_pipeline_unfold)
  show ?thesis using r st e x g iff link by blast
qed


text \<open>The hypotheses hold in the world whose notebook lacks the training cell.\<close>

theorem run_pipeline_records_failure_witness:
  "infra_ok w_no_training \<and> db_pipelines ext0 ''p1'' = Some row0 \<and>
   (\<exists>r. fst (run_pipeline w_no_training st0 ''p1'' 1 ''abc123'' ext0) = Inr r \<and>
        run_stored ''p1'' r (snd (run_pipeline w_no_training st0 ''p1'' 1 ''abc123'' ext0)))"
proof -
  have r: "db_pipelines ext0 ''p1'' = Some row0" by (simp add: ext0_def)
  from run_pipeline_records_failure [OF sample_infra_ok(3) r, of st0 1 "''abc123''"]
  show ?thesis using sample_infra_ok(3) r by blast
qed

text \<open>
  Two runs outside these hypotheses. When the download fails and the broadcaster is
  down while the handler records the failure, the exception of the broadcaster leaves
  \<open>run_pipeline\<close> and the row keeps the status \<open>running\<close> without an end time. When a
  shutdown is signalled, every phase that ran has succeeded and the status is \<open>failed\<close>.
\<close>

theorem run_pipeline_handler_raises_counterexample:
  "fst (run_pipeline w_fetch_fails_redis_down st0 ''p1'' 1 ''abc123'' ext0) =
     Inl (OtherException ''Connection refused'') \<and>
   map_option pl_status
     (db_pipelines (snd (run_pipeline w_fetch_fails_redis_down st0 ''p1'' 1 ''abc123'' ext0)) ''p1'') =
     Some ''running'' \<and>
   map_option pl_finished_at
     (db_pipelines (snd (run_pipeline w_fetch_fails_redis_down st0 ''p1'' 1 ''abc123'' ext0)) ''p1'') =
     Some None \<and>
   fst (run_pipeline w_shutdown st0 ''p1'' 1 ''abc123'' ext0) = Inr RunShutdown \<and>
   phase_view (snd (run_pipeline w_shutdown st0 ''p1'' 1 ''abc123'' ext0)) =
     [(''download'', ''running''), (''download'', ''success'')] \<and>
   map_option pl_status
     (db_pipelines (snd (run_pipeline w_shutdown st0 ''p1'' 1 ''abc123'' ext0)) ''p1'') =
     Some ''failed''"
  by (simp add: run_eval world_defs phase_view_def)

subsection \<open>A notebook without the training cell\<close>

lemma validate_required_tags_eq:
  "validate_required_tags nb =
     (if \<forall>t \<in> set REQUIRED_TAGS. get_cells_by_tag nb t \<noteq> [] then Inr ()
      else Inl (ValueError (missing_tags_msg
             (filter (\<lambda>t. get_cells_by_tag nb t = []) REQUIRED_TAGS))))"
  by (simp add: validate_required_tags_def missing_loop_filter Let_def filter_empty_conv)

lemmas path_simps = stage_defs healthy_simps run_stored_def update_row_def or_keep_def
  phase_view_def completed_def main_phases_def

lemma missing_training_path:
  assumes "infra_ok w" and "db_pipelines ext pid = Some row"
    and "repositories w rid = Inr (Some repo)" and "github_fetch w repo = Inr nb"
    and "\<not> shutting_down_at w 0" and "get_cells_by_tag nb ''mlops:training'' = []"
  shows "fst (run_pipeline w st pid rid sha ext) =
           Inr (RunError (missing_tags_msg
                  (filter (\<lambda>t. get_cells_by_tag nb t = []) REQUIRED_TAGS))) \<and>
         run_stored pid (RunError (missing_tags_msg
                  (filter (\<lambda>t. get_cells_by_tag nb t = []) REQUIRED_TAGS)))
           (snd (run_pipeline w st pid rid sha ext)) \<and>
         phase_view (snd (run_pipeline w st pid rid sha ext)) =
           [(''download'', ''running''), (''download'', ''success''),
            (''validate'', ''running''), (''error'', ''failed'')] \<and>
         pe_logs (last (l_phases (snd (run_pipeline w st pid rid sha ext)))) =
           missing_tags_msg (filter (\<lambda>t. get_cells_by_tag nb t = []) REQUIRED_TAGS)"
proof -
  have v: "validate_required_tags nb =
     Inl (ValueError (missing_tags_msg (filter (\<lambda>t. get_cells_by_tag nb t = []) REQUIRED_TAGS)))"
    using assms(6) by (simp add: validate_required_tags_eq REQUIRED_TAGS_def)
  show ?thesis
    using assms(1-5) v by (simp add: path_simps)
qed


text \<open>
  C7, as amended. For a notebook that is downloaded and has no cell tagged
  \<open>mlops:training\<close> (store and broadcaster working, no shutdown signalled after the
  download), the run returns the error of the validation, the row holds the status
  \<open>failed\<close>, an end time and the phase list of the task, and that list is: download
  running, download success, validate running, and one failed entry, named \<open>error\<close>,
  with the validation message. There is no execute, register or deploy entry.
\<close>

theorem missing_training_tag_fails_in_validate:
  assumes "infra_ok w" and "db_pipelines ext pid = Some row"
    and "repositories w rid = Inr (Some repo)" and "github_fetch w repo = Inr nb"
    and "\<not> shutting_down_at w 0" and "get_cells_by_tag nb ''mlops:training'' = []"
  shows "fst (run_pipeline w st pid rid sha ext) =
           Inr (RunError (missing_tags_msg
                  (filter (\<lambda>t. get_cells_by_tag nb t = []) REQUIRED_TAGS))) \<and>
         run_stored pid (RunError (missing_tags_msg
                  (filter (\<lambda>t. get_cells_by_tag nb t = []) REQUIRED_TAGS)))
           (snd (run_pipeline w st pid rid sha ext)) \<and>
         phase_view (snd (run_pipeline w st pid rid sha ext)) =
           [(''download'', ''running''), (''download'', ''success''),
            (''validate'', ''running''), (''error'', ''failed'')] \<and>
         pe_logs (last (l_phases (snd (run_pipeline w st pid rid sha ext)))) =
           missing_tags_msg (filter (\<lambda>t. get_cells_by_tag nb t = []) REQUIRED_TAGS)"
  using assms by (rule missing_training_path)

lemma sample_no_training_hyps:
  "db_pipelines ext0 ''p1'' = Some row0"
  "repositories w_no_training 1 = Inr (Some repo0)"
  "github_fetch w_no_training repo0 = Inr nb_no_training"
  "\<not> shutting_down_at w_no_training 0"
  by (simp_all add: world_defs)

theorem missing_training_tag_witness:
  "infra_ok w_no_training \<and> db_pipelines ext0 ''p1'' = Some row0 \<and>
   repositories w_no_training 1 = Inr (Some repo0) \<and>
   github_fetch w_no_training repo0 = Inr nb_no_training \<and>
   \<not> shutting_down_at w_no_training 0 \<and>
   get_cells_by_tag nb_no_training ''mlops:training'' = [] \<and>
   run_stored ''p1'' (RunError (missing_tags_msg [''mlops:training'']))
     (snd (run_pipeline w_no_training st0 ''p1'' 1 ''abc123'' ext0)) \<and>
   phase_view (snd (run_pipeline w_no_training st0 ''p1'' 1 ''abc123'' ext0)) =
     [(''download'', ''running''), (''download'', ''success''),
      (''validate'', ''running''), (''error'', ''failed'')]"
proof -
  have f: "filter (\<lambda>t. get_cells_by_tag nb_no_training t = []) REQUIRED_TAGS = [''mlops:training'']"
    by (simp add: nb_eval nb_no_training_def)
  from missing_training_tag_fails_in_validate [OF sample_infra_ok(3) sample_no_training_hyps
         nb_no_training_missing, of st0 "''abc123''"]
  show ?thesis
    using sample_infra_ok(3) sample_no_training_hyps nb_no_training_missing by (simp add: f)
qed

text \<open>The failed entry of such a run is not named \<open>validate\<close>: the validate entry stays
  \<open>running\<close> and the failure is recorded under the name \<open>error\<close>.\<close>

theorem missing_training_tag_counterexample:
  "phase_view (snd (run_pipeline w_no_training st0 ''p1'' 1 ''abc123'' ext0)) =
     [(''download'', ''running''), (''download'', ''success''),
      (''validate'', ''running''), (''error'', ''failed'')]"
  using missing_training_path [OF sample_infra_ok(3) sample_no_training_hyps
         nb_no_training_missing, of st0 "''abc123''"]
  by simp

subsection \<open>A failing deployment\<close>

lemma healthy_deploy_path:
  assumes "infra_ok w" and "db_pipelines ext pid = Some row"
    and "repositories w rid = Inr (Some repo)" and "github_fetch w repo = Inr nb"
    and "\<forall>k. \<not> shutting_down_at w k"
    and "validate_required_tags nb = Inr ()" and "extract_config nb = Inr cfg"
    and "tmpdir_create_fault w = None" and "papermill_execute w = Inr lg"
    and "mlflow_register w = RegisterOk mr mrid"
    and "auto_deploy_on_success st"
    and "min_accuracy_threshold st \<le> get_accuracy (metrics_of_run mr)"
    and "good = (model_server_load w = None \<and> deployment_commit_fault w = None)"
  shows "fst (run_pipeline w st pid rid sha ext) =
           Inr (RunSuccess ((metrics_of_run mr)(''deployed'' \<mapsto> MBool good))) \<and>
         run_stored pid (RunSuccess ((metrics_of_run mr)(''deployed'' \<mapsto> MBool good)))
           (snd (run_pipeline w st pid rid sha ext)) \<and>
         phase_view (snd (run_pipeline w st pid rid sha ext)) =
           completed main_phases @
           [(''deploy'', ''running''), (''deploy'', if good then ''success'' else ''failed'')] \<and>
         ev_phase (snd (last (redis_published (snd (run_pipeline w st pid rid sha ext))))) = ''complete'' \<and>
         (\<not> good \<longrightarrow> db_deployments (snd (run_pipeline w st pid rid sha ext)) = db_deployments ext)"
proof (cases "model_server_load w")
  case None
  show ?thesis
  proof (cases "deployment_commit_fault w")
    case N2: None
    show ?thesis using assms None N2
      by (simp add: path_simps publish_phase_published)
  next
    case (Some m)
    show ?thesis using assms None Some
      by (simp add: path_simps publish_phase_published)
  qed
next
  case (Some m)
  show ?thesis using assms Some
    by (simp add: path_simps publish_phase_published)
qed


text \<open>
  C6. In a run that reaches the deploy phase (store and broadcaster working, the four
  phases before it succeed, promotion enabled and the accuracy at least the threshold),
  whatever the load call of the model server and the write of the deployment record do,
  the task returns \<open>success\<close> with the metrics read back and the key \<open>deployed\<close>, which is
  true exactly when both the load call and the record write succeeded; the row holds
  the status \<open>success\<close>, an end time, the phase list and these metrics; the phase list
  ends with the deploy entries \<open>running\<close> and then \<open>success\<close> or \<open>failed\<close>; the completion
  event is the last event published; and a failed deployment leaves the deployment
  table as it was.
\<close>

theorem deploy_failure_keeps_run_successful:
  assumes "infra_ok w" and "db_pipelines ext pid = Some row"
    and "repositories w rid = Inr (Some repo)" and "github_fetch w repo = Inr nb"
    and "\<forall>k. \<not> shutting_down_at w k"
    and "validate_required_tags nb = Inr ()" and "extract_config nb = Inr cfg"
    and "tmpdir_create_fault w = None" and "papermill_execute w = Inr lg"
    and "mlflow_register w = RegisterOk mr mrid"
    and "auto_deploy_on_success st"
    and "min_accuracy_threshold st \<le> get_accuracy (metrics_of_run mr)"
    and "good = (model_server_load w = None \<and> deployment_commit_fault w = None)"
  shows "fst (run_pipeline w st pid rid sha ext) =
           Inr (RunSuccess ((metrics_of_run mr)(''deployed'' \<mapsto> MBool good))) \<and>
         run_stored pid (RunSuccess ((metrics_of_run mr)(''deployed'' \<mapsto> MBool good)))
           (snd (run_pipeline w st pid rid sha ext)) \<and>
         phase_view (snd (run_pipeline w st pid rid sha ext)) =
           completed main_phases @
           [(''deploy'', ''running''), (''deploy'', if good then ''success'' else ''failed'')] \<and>
         ev_phase (snd (last (redis_published (snd (run_pipeline w st pid rid sha ext))))) = ''complete'' \<and>
         (\<not> good \<longrightarrow> db_deployments (snd (run_pipeline w st pid rid sha ext)) = db_deployments ext)"
  using assms by (rule healthy_deploy_path)

lemma sample_reach:
  assumes "w = w_ok \<or> w = w_load_fails \<or> w = w_low_accuracy"
  shows "db_pipelines ext0 ''p1'' = Some row0"
    and "repositories w 1 = Inr (Some repo0)" and "github_fetch w repo0 = Inr nb_ok"
    and "\<forall>k. \<not> shutting_down_at w k"
    and "validate_required_tags nb_ok = Inr ()"
    and "extract_config nb_ok = Inr \<lparr>cfg_model_name = ''iris-classifier'', cfg_version = ''1''\<rparr>"
    and "tmpdir_create_fault w = None" and "papermill_execute w = Inr ''[]''"
  using assms by (auto simp: world_defs nb_ok_valid nb_ok_config)

lemma sample_accuracy:
  "get_accuracy (metrics_of_run (Some [''accuracy'' \<mapsto> a])) = a"
  by (simp add: get_accuracy_def metrics_of_run_def)

theorem deploy_failure_witness:
  "infra_ok w_load_fails \<and> db_pipelines ext0 ''p1'' = Some row0 \<and>
   repositories w_load_fails 1 = Inr (Some repo0) \<and> github_fetch w_load_fails repo0 = Inr nb_ok \<and>
   (\<forall>k. \<not> shutting_down_at w_load_fails k) \<and>
   validate_required_tags nb_ok = Inr () \<and>
   extract_config nb_ok = Inr \<lparr>cfg_model_name = ''iris-classifier'', cfg_version = ''1''\<rparr> \<and>
   tmpdir_create_fault w_load_fails = None \<and> papermill_execute w_load_fails = Inr ''[]'' \<and>
   mlflow_register w_load_fails = RegisterOk (Some [''accuracy'' \<mapsto> 0.95]) ''run1'' \<and>
   auto_deploy_on_success st0 \<and>
   min_accuracy_threshold st0 \<le> get_accuracy (metrics_of_run (Some [''accuracy'' \<mapsto> 0.95])) \<and>
   model_server_load w_load_fails = Some ''503 Service Unavailable'' \<and>
   fst (run_pipeline w_load_fails st0 ''p1'' 1 ''abc123'' ext0) =
     Inr (RunSuccess ((metrics_of_run (Some [''accuracy'' \<mapsto> 0.95]))(''deployed'' \<mapsto> MBool False))) \<and>
   phase_view (snd (run_pipeline w_load_fails st0 ''p1'' 1 ''abc123'' ext0)) =
     completed main_phases @ [(''deploy'', ''running''), (''deploy'', ''failed'')] \<and>
   db_deployments (snd (run_pipeline w_load_fails st0 ''p1'' 1 ''abc123'' ext0)) = db_deployments ext0"
proof -
  have w: "w_load_fails = w_ok \<or> w_load_fails = w_load_fails \<or> w_load_fails = w_low_accuracy"
    by simp
  have m: "mlflow_register w_load_fails = RegisterOk (Some [''accuracy'' \<mapsto> 0.95]) ''run1''"
    and l: "model_server_load w_load_fails = Some ''503 Service Unavailable''"
    by (simp_all add: world_defs)
  have a: "auto_deploy_on_success st0"
    and t: "min_accuracy_threshold st0 \<le> get_accuracy (metrics_of_run (Some [''accuracy'' \<mapsto> 0.95]))"
    by (simp_all add: st0_def sample_accuracy)
  have g: "False = (model_server_load w_load_fails = None \<and> deployment_commit_fault w_load_fails = None)"
    using l by simp
  from deploy_failure_keeps_run_successful [OF sample_infra_ok(4) sample_reach [OF w] m a t g,
         of "''abc123''"]
  show ?thesis
    using sample_infra_ok(4) sample_reach [OF w] m a t l by simp
qed

subsection \<open>A skipped deployment\<close>

lemma skipped_deploy_path:
  assumes "infra_ok w" and "db_pipelines ext pid = Some row"
    and "repositories w rid = Inr (Some repo)" and "github_fetch w repo = Inr nb"
    and "\<forall>k. \<not> shutting_down_at w k"
    and "validate_required_tags nb = Inr ()" and "extract_config nb = Inr cfg"
    and "tmpdir_create_fault w = None" and "papermill_execute w = Inr lg"
    and "mlflow_register w = RegisterOk mr mrid"
    and "\<not> auto_deploy_on_success st \<or> get_accuracy (metrics_of_run mr) < min_accuracy_threshold st"
  shows "fst (run_pipeline w st pid rid sha ext) =
           Inr (RunSuccess ((metrics_of_run mr)(''deployed'' \<mapsto> MBool False))) \<and>
         run_stored pid (RunSuccess ((metrics_of_run mr)(''deployed'' \<mapsto> MBool False)))
           (snd (run_pipeline w st pid rid sha ext)) \<and>
         phase_view (snd (run_pipeline w st pid rid sha ext)) = completed main_phases"
  using assms by (auto simp: path_simps)

lemma post_same: "post (\<lambda>_. I) (\<lambda>_. I) r s = I s"
  by (cases r) simp_all

lemma no_deploy_append [simp]: "no_deploy (ps @ [e]) \<longleftrightarrow> no_deploy ps \<and> pe_name e \<noteq> ''deploy''"
  by (auto simp: no_deploy_def)

lemma nd_phase:
  "n \<noteq> ''deploy'' \<Longrightarrow> not_deploying C pid s \<Longrightarrow> not_deploying C pid (snd (phase w pid n stt lg s))"
  by (auto simp: not_deploying_def phase_row_general split: sum.splits)

lemma update_row_phases [simp]:
  "pl_phases (update_row a b c d e row) = or_keep b (pl_phases row)"
  by (simp add: update_row_def)

lemma nd_update:
  assumes "not_deploying C pid s" and "b = None \<or> b = Some (l_phases s)"
  shows "not_deploying C pid (snd (update_pipeline_db w pid a b c d e s))"
proof -
  have "no_deploy (pl_phases row')"
    if c: "C" and r0: "db_pipelines (snd (update_pipeline_db w pid a b c d e s)) pid = Some row'" for row'
  proof (cases "db_fault_at w (n_db s)")
    case (Some m)
    then show ?thesis using c r0 assms(1) by (simp add: update_pipeline_db_row not_deploying_def)
  next
    case None
    then obtain row where r: "db_pipelines s pid = Some row"
      and r': "row' = update_row a b c d e row"
      using r0 by (auto simp: update_pipeline_db_row)
    have "no_deploy (pl_phases row)" using assms(1) r c by (simp add: not_deploying_def)
    moreover have "no_deploy (l_phases s)" using assms(1) by (simp add: not_deploying_def)
    ultimately show ?thesis using assms(2) r' by (auto simp: or_keep_def)
  qed
  then show ?thesis using assms(1) by (simp add: not_deploying_def)
qed

lemma nd_keep [simp]:
  "not_deploying C pid (s\<lparr>l_metrics := x\<rparr>) = not_deploying C pid s"
  "not_deploying C pid (s\<lparr>n_clock := z\<rparr>) = not_deploying C pid s"
  "not_deploying C pid (snd (publish_phase w pid n stt lg s)) = not_deploying C pid s"
  by (simp_all add: not_deploying_def)

lemma nd_triple_phase:
  "n \<noteq> ''deploy'' \<Longrightarrow>
   triple (not_deploying C pid) (phase w pid n stt lg)
     (post (\<lambda>_. not_deploying C pid) (\<lambda>_. not_deploying C pid))"
  by (simp add: triple_def post_same nd_phase)

lemma nd_start:
  "triple (not_deploying C pid) (and_then (now_utc w) (\<lambda>ts.
       update_pipeline_db w pid (Some ''running'') None None (Some ts) None))
     (post (\<lambda>_. not_deploying C pid) (\<lambda>_. not_deploying C pid))"
  by (simp add: triple_def post_same io_unfold nd_update split: sum.splits)

lemma nd_download:
  "triple (not_deploying C pid) (download_phase w pid rid)
     (post (\<lambda>_. not_deploying C pid) (\<lambda>_. not_deploying C pid))"
  by (simp add: triple_def post_same download_phase_def io_unfold nd_phase
      split: sum.splits option.splits)

lemma nd_validate:
  "triple (not_deploying C pid) (validate_phase w pid nb)
     (post (\<lambda>_. not_deploying C pid) (\<lambda>_. not_deploying C pid))"
  by (simp add: triple_def post_same validate_phase_def io_unfold nd_phase
      split: sum.splits option.splits)

lemma nd_execute:
  "triple (not_deploying C pid) (execute_phase w pid)
     (post (\<lambda>_. not_deploying C pid) (\<lambda>_. not_deploying C pid))"
  by (simp add: triple_def post_same execute_phase_def io_unfold nd_phase
      split: sum.splits option.splits)

lemma nd_register:
  assumes "\<not> auto_deploy_on_success st \<or>
           (\<forall>mr mrid. mlflow_register w = RegisterOk mr mrid \<longrightarrow>
                get_accuracy (metrics_of_run mr) < min_accuracy_threshold st)"
  shows "triple (not_deploying C pid) (register_phase w pid)
     (post (\<lambda>(acc, mrid) s. not_deploying C pid s \<and>
               \<not> (auto_deploy_on_success st \<and> min_accuracy_threshold st \<le> acc))
           (\<lambda>_. not_deploying C pid))"
  using assms
  by (cases "mlflow_register w")
     (auto simp: triple_def register_phase_def io_unfold nd_phase post_def
       split: sum.splits)

lemma nd_deploy:
  "triple (\<lambda>s. not_deploying C pid s \<and>
                \<not> (auto_deploy_on_success st \<and> min_accuracy_threshold st \<le> acc))
     (deploy_phase w st pid cfg acc mrid)
     (post (\<lambda>_. not_deploying C pid) (\<lambda>_. not_deploying C pid))"
  by (auto simp: triple_def post_same deploy_phase_def io_unfold not_deploying_def)

lemma nd_not_deployed: "not_deploying C pid s \<Longrightarrow> \<not> l_deployed s"
  by (simp add: not_deploying_def)

lemma nd_mark_success:
  "triple (not_deploying C pid) (mark_success w pid)
     (post (\<lambda>r s. not_deploying C pid s \<and>
               (\<forall>m. r = RunSuccess m \<longrightarrow> m ''deployed'' = Some (MBool False)))
           (\<lambda>_. not_deploying C pid))"
proof (rule tripleI)
  fix s assume a: "not_deploying C pid s"
  then have d: "l_deployed s = False" by (simp add: nd_not_deployed)
  let ?s1 = "s\<lparr>l_metrics := (l_metrics s)(''deployed'' \<mapsto> MBool False), n_clock := Suc (n_clock s)\<rparr>"
  have u: "not_deploying C pid
             (snd (update_pipeline_db w pid (Some ''success'') (Some (l_phases s))
                (Some ((l_metrics s)(''deployed'' \<mapsto> MBool False))) None
                (Some (wall_clock w (n_clock s))) ?s1))"
    using a by (intro nd_update) simp_all
  show "post (\<lambda>r s. not_deploying C pid s \<and>
               (\<forall>m. r = RunSuccess m \<longrightarrow> m ''deployed'' = Some (MBool False)))
           (\<lambda>_. not_deploying C pid) (fst (mark_success w pid s)) (snd (mark_success w pid s))"
    using u by (simp add: mark_success_def io_unfold d post_def split: sum.splits)
qed

lemma nd_on_shutdown:
  "triple (not_deploying C pid) (on_shutdown w pid)
     (\<lambda>r s. not_deploying C pid s \<and> (\<forall>m. r \<noteq> Inr (RunSuccess m)))"
  by (auto simp: triple_def on_shutdown_def io_unfold nd_update split: sum.splits)

lemma nd_on_exception:
  "triple (not_deploying C pid) (on_exception w pid e)
     (\<lambda>r s. not_deploying C pid s \<and> (\<forall>m. r \<noteq> Inr (RunSuccess m)))"
  by (auto simp: triple_def on_exception_def io_unfold nd_update nd_phase split: sum.splits)

lemma nd_try_body:
  assumes "\<not> auto_deploy_on_success st \<or>
           (\<forall>mr mrid. mlflow_register w = RegisterOk mr mrid \<longrightarrow>
                get_accuracy (metrics_of_run mr) < min_accuracy_threshold st)"
  shows "triple (not_deploying C pid) (try_body w st pid rid sha)
             (post (\<lambda>r s. not_deploying C pid s \<and>
                      (\<forall>m. r = RunSuccess m \<longrightarrow> m ''deployed'' = Some (MBool False)))
                   (\<lambda>_. not_deploying C pid))"
  by (rule try_body_triple [where
          ?A1.0 = "not_deploying C pid" and ?A2.0 = "\<lambda>_. not_deploying C pid"
          and ?A3.0 = "\<lambda>_ _. not_deploying C pid" and ?A4.0 = "\<lambda>_ _. not_deploying C pid"
          and ?A5.0 = "\<lambda>_ _. not_deploying C pid"
          and ?A6.0 = "\<lambda>_ _ acc _ s. not_deploying C pid s \<and>
               \<not> (auto_deploy_on_success st \<and> min_accuracy_threshold st \<le> acc)"
          and ?A7.0 = "\<lambda>_ _. not_deploying C pid"])
       (rule nd_start nd_download nd_validate nd_execute nd_register [OF assms]
          nd_deploy nd_mark_success nd_triple_phase | simp)+

lemma never_deploys:
  assumes "\<not> auto_deploy_on_success st \<or>
           (\<forall>mr mrid. mlflow_register w = RegisterOk mr mrid \<longrightarrow>
                get_accuracy (metrics_of_run mr) < min_accuracy_threshold st)"
    and "C \<longrightarrow> (\<forall>row. db_pipelines ext pid = Some row \<longrightarrow> no_deploy (pl_phases row))"
  shows "not_deploying C pid (snd (run_pipeline w st pid rid sha ext)) \<and>
         (\<forall>m. fst (run_pipeline w st pid rid sha ext) = Inr (RunSuccess m) \<longrightarrow>
              m ''deployed'' = Some (MBool False))"
proof -
  have "(\<lambda>r s. not_deploying C pid s \<and>
           (\<forall>m. r = Inr (RunSuccess m) \<longrightarrow> m ''deployed'' = Some (MBool False)))
          (fst (run_pipeline w st pid rid sha ext)) (snd (run_pipeline w st pid rid sha ext))"
  proof (rule run_pipeline_triple [OF nd_try_body [OF assms(1), of C pid]])
    show "not_deploying C pid (start_state ext)"
      using assms(2) by (simp add: start_state_def not_deploying_def no_deploy_def)
    show "\<And>e. \<not> is_Exception e \<Longrightarrow> triple (not_deploying C pid) (on_shutdown w pid)
             (\<lambda>r s. not_deploying C pid s \<and>
                (\<forall>m. r = Inr (RunSuccess m) \<longrightarrow> m ''deployed'' = Some (MBool False)))"
      using nd_on_shutdown [of C pid w] by (auto simp: triple_def)
    show "\<And>e. is_Exception e \<Longrightarrow> triple (not_deploying C pid) (on_exception w pid e)
             (\<lambda>r s. not_deploying C pid s \<and>
                (\<forall>m. r = Inr (RunSuccess m) \<longrightarrow> m ''deployed'' = Some (MBool False)))"
      using nd_on_exception [of C pid w] by (auto simp: triple_def)
  qed simp
  then show ?thesis by simp
qed


text \<open>
  C5. When promotion is disabled, or the accuracy the tracking run yields is below the
  threshold, no deploy entry is ever appended to the phase list, whatever else happens
  in the run, and none reaches the stored row; a run that returns \<open>success\<close> has
  \<open>deployed = False\<close> in its metrics; and when the store and the broadcaster work and the
  four phases succeed, the run does return \<open>success\<close>, stored as such, with the phase
  list of the four completed phases.
\<close>

theorem deploy_skipped_when_not_eligible:
  assumes "\<not> auto_deploy_on_success st \<or>
           (\<forall>mr mrid. mlflow_register w = RegisterOk mr mrid \<longrightarrow>
                get_accuracy (metrics_of_run mr) < min_accuracy_threshold st)"
  shows "no_deploy (l_phases (snd (run_pipeline w st pid rid sha ext))) \<and>
         ((\<forall>row. db_pipelines ext pid = Some row \<longrightarrow> no_deploy (pl_phases row)) \<longrightarrow>
          (\<forall>row. db_pipelines (snd (run_pipeline w st pid rid sha ext)) pid = Some row \<longrightarrow>
                 no_deploy (pl_phases row))) \<and>
         (\<forall>m. fst (run_pipeline w st pid rid sha ext) = Inr (RunSuccess m) \<longrightarrow>
              m ''deployed'' = Some (MBool False)) \<and>
         (\<forall>row repo nb cfg lg mr mrid.
            infra_ok w \<and> db_pipelines ext pid = Some row \<and>
            repositories w rid = Inr (Some repo) \<and> github_fetch w repo = Inr nb \<and>
            (\<forall>k. \<not> shutting_down_at w k) \<and>
            validate_required_tags nb = Inr () \<and> extract_config nb = Inr cfg \<and>
            tmpdir_create_fault w = None \<and> papermill_execute w = Inr lg \<and>
            mlflow_register w = RegisterOk mr mrid \<longrightarrow>
            fst (run_pipeline w st pid rid sha ext) =
              Inr (RunSuccess ((metrics_of_run mr)(''deployed'' \<mapsto> MBool False))) \<and>
            run_stored pid (RunSuccess ((metrics_of_run mr)(''deployed'' \<mapsto> MBool False)))
              (snd (run_pipeline w st pid rid sha ext)) \<and>
            phase_view (snd (run_pipeline w st pid rid sha ext)) = completed main_phases)"
proof -
  let ?C = "\<forall>row. db_pipelines ext pid = Some row \<longrightarrow> no_deploy (pl_phases row)"
  have n: "not_deploying ?C pid (snd (run_pipeline w st pid rid sha ext))"
    and d: "\<forall>m. fst (run_pipeline w st pid rid sha ext) = Inr (RunSuccess m) \<longrightarrow>
              m ''deployed'' = Some (MBool False)"
    using never_deploys [OF assms, of ?C ext pid rid sha] by simp_all
  have p: "fst (run_pipeline w st pid rid sha ext) =
              Inr (RunSuccess ((metrics_of_run mr)(''deployed'' \<mapsto> MBool False))) \<and>
            run_stored pid (RunSuccess ((metrics_of_run mr)(''deployed'' \<mapsto> MBool False)))
              (snd (run_pipeline w st pid rid sha ext)) \<and>
            phase_view (snd (run_pipeline w st pid rid sha ext)) = completed main_phases"
    if "infra_ok w" "db_pipelines ext pid = Some row"
       "repositories w rid = Inr (Some repo)" "github_fetch w repo = Inr nb"
       "\<forall>k. \<not> shutting_down_at w k"
       "validate_required_tags nb = Inr ()" "extract_config nb = Inr cfg"
       "tmpdir_create_fault w = None" "papermill_execute w = Inr lg"
       "mlflow_register w = RegisterOk mr mrid"
    for row repo nb cfg lg mr mrid
  proof -
    have "\<not> auto_deploy_on_success st \<or>
            get_accuracy (metrics_of_run mr) < min_accuracy_threshold st"
      using assms that(10) by blast
    then show ?thesis by (rule skipped_deploy_path [OF that])
  qed
  show ?thesis
    using n d p unfolding not_deploying_def by blast
qed

theorem deploy_skipped_witness:
  "get_accuracy (metrics_of_run (Some [''accuracy'' \<mapsto> 0.5])) < min_accuracy_threshold st0 \<and>
   infra_ok w_low_accuracy \<and>
   mlflow_register w_low_accuracy = RegisterOk (Some [''accuracy'' \<mapsto> 0.5]) ''run1'' \<and>
   no_deploy (l_phases (snd (run_pipeline w_low_accuracy st0 ''p1'' 1 ''abc123'' ext0))) \<and>
   fst (run_pipeline w_low_accuracy st0 ''p1'' 1 ''abc123'' ext0) =
     Inr (RunSuccess ((metrics_of_run (Some [''accuracy'' \<mapsto> 0.5]))(''deployed'' \<mapsto> MBool False))) \<and>
   phase_view (snd (run_pipeline w_low_accuracy st0 ''p1'' 1 ''abc123'' ext0)) =
     completed main_phases"
proof -
  have w: "w_low_accuracy = w_ok \<or> w_low_accuracy = w_load_fails \<or> w_low_accuracy = w_low_accuracy"
    by simp
  have m: "mlflow_register w_low_accuracy = RegisterOk (Some [''accuracy'' \<mapsto> 0.5]) ''run1''"
    by (simp add: world_defs)
  have h: "\<not> auto_deploy_on_success st0 \<or>
      (\<forall>mr mrid. mlflow_register w_low_accuracy = RegisterOk mr mrid \<longrightarrow>
           get_accuracy (metrics_of_run mr) < min_accuracy_threshold st0)"
    by (auto simp: m st0_def sample_accuracy)
  note t = deploy_skipped_when_not_eligible [OF h, of "''p1''" 1 "''abc123''" ext0]
  have 1: "no_deploy (l_phases (snd (run_pipeline w_low_accuracy st0 ''p1'' 1 ''abc123'' ext0)))"
    using t by (rule conjunct1)
  have 2: "fst (run_pipeline w_low_accuracy st0 ''p1'' 1 ''abc123'' ext0) =
     Inr (RunSuccess ((metrics_of_run (Some [''accuracy'' \<mapsto> 0.5]))(''deployed'' \<mapsto> MBool False))) \<and>
     run_stored ''p1'' (RunSuccess ((metrics_of_run (Some [''accuracy'' \<mapsto> 0.5]))(''deployed'' \<mapsto> MBool False)))
       (snd (run_pipeline w_low_accuracy st0 ''p1'' 1 ''abc123'' ext0)) \<and>
     phase_view (snd (run_pipeline w_low_accuracy st0 ''p1'' 1 ''abc123'' ext0)) = completed main_phases"
    using t [THEN conjunct2, THEN conjunct2, THEN conjunct2, rule_format,
             of row0 repo0 nb_ok "\<lparr>cfg_model_name = ''iris-classifier'', cfg_version = ''1''\<rparr>"
                "''[]''" "Some [''accuracy'' \<mapsto> 0.5]" "''run1''"]
      sample_infra_ok(5) sample_reach [OF w] m
    by blast
  have 0: "get_accuracy (metrics_of_run (Some [''accuracy'' \<mapsto> 0.5])) < min_accuracy_threshold st0"
    by (simp add: st0_def sample_accuracy)
  show ?thesis using 0 sample_infra_ok(5) m 1 2 by blast
qed

subsection \<open>A failing broadcaster\<close>

lemma phase_ok_no_fault:
  "fst (phase w pid n stt lg s) = Inr u \<Longrightarrow> redis_fault_at w (n_redis s) = None"
  by (auto simp: phase_fst split: option.splits redis_fault.splits)

lemma publish_ok_no_fault:
  "fst (publish_phase w pid n stt lg s) = Inr u \<Longrightarrow> redis_fault_at w (n_redis s) = None"
  by (auto simp: publish_phase_fst split: option.splits redis_fault.splits)

lemma calls_ok_Suc:
  "calls_ok w j s \<Longrightarrow> redis_fault_at w j = None \<Longrightarrow> n_redis s' = Suc j \<Longrightarrow> calls_ok w (Suc j) s'"
  by (auto simp: calls_ok_def less_Suc_eq)

lemma c_phase:
  "triple (calls_ok w j) (phase w pid n stt lg) (post (\<lambda>_. calls_ok w (Suc j)) (\<lambda>_ _. True))"
proof (rule tripleI)
  fix s assume a: "calls_ok w j s"
  show "post (\<lambda>_. calls_ok w (Suc j)) (\<lambda>_ _. True)
          (fst (phase w pid n stt lg s)) (snd (phase w pid n stt lg s))"
  proof (cases "fst (phase w pid n stt lg s)")
    case (Inl e)
    then show ?thesis by simp
  next
    case (Inr u)
    from phase_ok_no_fault [OF Inr] a have "redis_fault_at w j = None"
      by (simp add: calls_ok_def)
    with a have "calls_ok w (Suc j) (snd (phase w pid n stt lg s))"
      by (intro calls_ok_Suc [of w j s]) (simp_all add: calls_ok_def)
    then show ?thesis using Inr by simp
  qed
qed

lemma c_start:
  "triple (calls_ok w 0) (and_then (now_utc w) (\<lambda>ts.
       update_pipeline_db w pid (Some ''running'') None None (Some ts) None))
     (post (\<lambda>_. calls_ok w 0) (\<lambda>_ _. True))"
  by (simp add: triple_def post_def io_unfold calls_ok_def split: sum.splits)

lemma calls_ok_step:
  "calls_ok w j s \<Longrightarrow> fst (phase w pid n stt lg s) = Inr u \<Longrightarrow>
     calls_ok w (Suc j) (snd (phase w pid n stt lg s))"
  using phase_ok_no_fault [of w pid n stt lg s u]
  by (auto simp: calls_ok_def less_Suc_eq)

lemma calls_ok_keep [simp]:
  "calls_ok w j (s\<lparr>l_metrics := x\<rparr>) = calls_ok w j s"
  "calls_ok w j (s\<lparr>l_deployed := y\<rparr>) = calls_ok w j s"
  "calls_ok w j (s\<lparr>n_clock := z\<rparr>) = calls_ok w j s"
  "calls_ok w j (s\<lparr>db_deployments := d\<rparr>) = calls_ok w j s"
  "calls_ok w j (snd (update_pipeline_db w pid a b c d' e s)) = calls_ok w j s"
  by (simp_all add: calls_ok_def)

lemma c_download:
  "triple (calls_ok w 0) (download_phase w pid rid) (post (\<lambda>_. calls_ok w 2) (\<lambda>_ _. True))"
  by (auto simp: triple_def post_def download_phase_def io_unfold numeral_2_eq_2
      intro!: calls_ok_step split: sum.splits option.splits)

lemma c_validate:
  "triple (calls_ok w 2) (validate_phase w pid nb) (post (\<lambda>_. calls_ok w 4) (\<lambda>_ _. True))"
  by (auto simp: triple_def post_def validate_phase_def io_unfold eval_nat_numeral
      intro!: calls_ok_step split: sum.splits option.splits)

lemma c_execute:
  "triple (calls_ok w 5) (execute_phase w pid) (post (\<lambda>_. calls_ok w 6) (\<lambda>_ _. True))"
  by (auto simp: triple_def post_def execute_phase_def io_unfold eval_nat_numeral
      intro!: calls_ok_step split: sum.splits option.splits)

lemma c_register:
  "triple (calls_ok w 6) (register_phase w pid)
     (post (\<lambda>(acc, mrid). calls_ok w 8) (\<lambda>_ _. True))"
  by (cases "mlflow_register w")
     (auto simp: triple_def post_def register_phase_def io_unfold eval_nat_numeral
      intro!: calls_ok_step split: sum.splits option.splits)

lemma c_execute_running:
  "triple (calls_ok w 4) (phase w pid ''execute'' ''running'' [])
     (post (\<lambda>_. calls_ok w 5) (\<lambda>_ _. True))"
  using c_phase [of w 4] by (simp add: eval_nat_numeral)

lemma first_nine_okI: "calls_ok w 9 s \<Longrightarrow> first_nine_ok w"
  by (auto simp: calls_ok_def first_nine_ok_def)

lemma c_deploy:
  "triple (calls_ok w 8) (deploy_phase w st pid cfg acc mrid)
     (post (\<lambda>_ s. calls_ok w 8 s \<or> first_nine_ok w) (\<lambda>_ _. True))"
proof (rule tripleI)
  fix s assume a: "calls_ok w 8 s"
  show "post (\<lambda>_ s. calls_ok w 8 s \<or> first_nine_ok w) (\<lambda>_ _. True)
          (fst (deploy_phase w st pid cfg acc mrid s)) (snd (deploy_phase w st pid cfg acc mrid s))"
  proof (cases "auto_deploy_on_success st \<and> min_accuracy_threshold st \<le> acc")
    case False
    then show ?thesis using a by (auto simp: deploy_phase_def io_unfold)
  next
    case True
    let ?s1 = "s\<lparr>l_deployed := False\<rparr>"
    show ?thesis
    proof (cases "fst (phase w pid ''deploy'' ''running'' [] ?s1)")
      case (Inl e)
      then show ?thesis using True by (simp add: deploy_phase_def io_unfold)
    next
      case (Inr u)
      have "calls_ok w (Suc 8) (snd (phase w pid ''deploy'' ''running'' [] ?s1))"
        using a Inr by (intro calls_ok_step) simp_all
      then have "first_nine_ok w" by (auto intro: first_nine_okI)
      then show ?thesis by (cases "fst (deploy_phase w st pid cfg acc mrid s)") simp_all
    qed
  qed
qed

lemma c_mark_success:
  "triple (\<lambda>s. calls_ok w 8 s \<or> first_nine_ok w) (mark_success w pid)
     (post (\<lambda>_ _. first_nine_ok w) (\<lambda>_ _. True))"
proof (rule tripleI)
  fix s assume a: "calls_ok w 8 s \<or> first_nine_ok w"
  let ?s1 = "s\<lparr>l_metrics := (l_metrics s)(''deployed'' \<mapsto> MBool (l_deployed s))\<rparr>"
  show "post (\<lambda>_ _. first_nine_ok w) (\<lambda>_ _. True)
          (fst (mark_success w pid s)) (snd (mark_success w pid s))"
  proof (cases "fst (mark_success w pid s)")
    case (Inl e)
    then show ?thesis by simp
  next
    case (Inr r)
    show ?thesis
    proof (cases "first_nine_ok w")
      case True
      then show ?thesis using Inr by simp
    next
      case False
      then have c: "calls_ok w 8 s" using a by simp
      from Inr have "redis_fault_at w 8 = None"
        using c
        by (auto simp: mark_success_def io_unfold calls_ok_def publish_phase_fst update_pipeline_db_fst
            split: sum.splits option.splits redis_fault.splits)
      then have "first_nine_ok w"
        using c by (auto simp: first_nine_ok_def calls_ok_def le_less)
      then show ?thesis using Inr by simp
    qed
  qed
qed

lemma c_try_body:
  "triple (calls_ok w 0) (try_body w st pid rid sha) (post (\<lambda>_ _. first_nine_ok w) (\<lambda>_ _. True))"
  by (rule try_body_triple [where ?A1.0 = "calls_ok w 0" and ?A2.0 = "\<lambda>_. calls_ok w 2"
        and ?A3.0 = "\<lambda>_ _. calls_ok w 4" and ?A4.0 = "\<lambda>_ _. calls_ok w 5"
        and ?A5.0 = "\<lambda>_ _. calls_ok w 6" and ?A6.0 = "\<lambda>_ _ _ _. calls_ok w 8"
        and ?A7.0 = "\<lambda>_ _ s. calls_ok w 8 s \<or> first_nine_ok w"])
     (rule c_start c_download c_validate c_execute_running c_execute c_register c_deploy
        c_mark_success | simp)+



lemma success_needs_first_nine:
  assumes "fst (run_pipeline w st pid rid sha ext) = Inr (RunSuccess m)"
  shows "first_nine_ok w"
proof -
  have "(\<lambda>r s. (\<exists>m. r = Inr (RunSuccess m)) \<longrightarrow> first_nine_ok w)
          (fst (run_pipeline w st pid rid sha ext)) (snd (run_pipeline w st pid rid sha ext))"
    by (rule run_pipeline_triple [OF c_try_body])
       (auto simp: triple_def start_state_def calls_ok_def on_shutdown_not_success
          on_exception_not_success)
  then show ?thesis using assms by simp
qed


text \<open>
  C8, as amended. A failure of the broadcaster is not absorbed. A phase transition
  whose Redis call fails raises, and it does so before the state store is updated with
  the new phase list. In the run, a failure of any of the first nine broadcaster calls
  (the transitions of download, validate, execute and register, and the first
  transition of deploy or, when the deployment is skipped, the completion event) keeps
  the task from returning \<open>success\<close>.
\<close>

theorem broadcaster_fault_is_not_absorbed:
  "(\<forall>f. redis_fault_at w (n_redis s) = Some f \<longrightarrow>
      (\<exists>m. fst (phase w pid n stt lg s) = Inl (OtherException m)) \<and>
      db_pipelines (snd (phase w pid n stt lg s)) = db_pipelines s) \<and>
   (\<forall>k\<le>8. redis_fault_at w k \<noteq> None \<longrightarrow>
      (\<forall>m. fst (run_pipeline w st pid rid sha ext) \<noteq> Inr (RunSuccess m)))"
proof -
  have a: "(\<exists>m. fst (phase w pid n stt lg s) = Inl (OtherException m)) \<and>
      db_pipelines (snd (phase w pid n stt lg s)) = db_pipelines s"
    if "redis_fault_at w (n_redis s) = Some f" for f
    using that
    by (cases f) (simp_all add: phase_fst phase_def io_unfold publish_phase_fst)
  have b: "fst (run_pipeline w st pid rid sha ext) \<noteq> Inr (RunSuccess m)"
    if "k \<le> 8" "redis_fault_at w k \<noteq> None" for k m
    using that success_needs_first_nine [of w st pid rid sha ext m]
    by (auto simp: first_nine_ok_def)
  show ?thesis using a b by blast
qed


theorem broadcaster_fault_witness:
  "redis_fault_at w_first_publish_fails (n_redis (start_state ext0)) =
     Some (PublishFails ''Connection refused'') \<and>
   fst (phase w_first_publish_fails ''p1'' ''download'' ''running'' [] (start_state ext0)) =
     Inl (OtherException ''Connection refused'') \<and>
   db_pipelines (snd (phase w_first_publish_fails ''p1'' ''download'' ''running'' [] (start_state ext0))) =
     db_pipelines (start_state ext0) \<and>
   (0::nat) \<le> 8 \<and> redis_fault_at w_first_publish_fails 0 \<noteq> None \<and>
   fst (run_pipeline w_first_publish_fails st0 ''p1'' 1 ''abc123'' ext0) \<noteq> Inr (RunSuccess Map.empty)"
proof -
  have f: "redis_fault_at w_first_publish_fails (n_redis (start_state ext0)) =
     Some (PublishFails ''Connection refused'')"
    by (simp add: world_defs start_state_def)
  have g: "redis_fault_at w_first_publish_fails 0 \<noteq> None"
    by (simp add: world_defs)
  note t = broadcaster_fault_is_not_absorbed [of w_first_publish_fails "start_state ext0" "''p1''"
      "''download''" "''running''" "[]" st0 1 "''abc123''" ext0]
  from t [THEN conjunct1, rule_format, OF f] obtain m where
    m: "fst (phase w_first_publish_fails ''p1'' ''download'' ''running'' [] (start_state ext0)) =
          Inl (OtherException m)"
    and d: "db_pipelines (snd (phase w_first_publish_fails ''p1'' ''download'' ''running'' []
              (start_state ext0))) = db_pipelines (start_state ext0)"
    by blast
  have m': "fst (phase w_first_publish_fails ''p1'' ''download'' ''running'' [] (start_state ext0)) =
          Inl (OtherException ''Connection refused'')"
    by (simp add: phase_fst f)
  have r: "fst (run_pipeline w_first_publish_fails st0 ''p1'' 1 ''abc123'' ext0) \<noteq>
             Inr (RunSuccess Map.empty)"
    using t [THEN conjunct2, rule_format, of 0 Map.empty] g by simp
  show ?thesis using f m' d g r by simp
qed

text \<open>
  With the broadcaster failing on the first transition only, the run that would have
  succeeded is stored as \<open>failed\<close>.
\<close>

theorem broadcaster_fault_counterexample:
  "map_option pl_status
     (db_pipelines (snd (run_pipeline w_ok st0 ''p1'' 1 ''abc123'' ext0)) ''p1'') = Some ''success'' \<and>
   fst (run_pipeline w_first_publish_fails st0 ''p1'' 1 ''abc123'' ext0) =
     Inr (RunError ''Connection refused'') \<and>
   map_option pl_status
     (db_pipelines (snd (run_pipeline w_first_publish_fails st0 ''p1'' 1 ''abc123'' ext0)) ''p1'') =
     Some ''failed''"
proof -
  have w: "w_ok = w_ok \<or> w_ok = w_load_fails \<or> w_ok = w_low_accuracy" by simp
  have m: "mlflow_register w_ok = RegisterOk (Some [''accuracy'' \<mapsto> 0.95]) ''run1''"
    by (simp add: world_defs)
  have a: "auto_deploy_on_success st0"
    and t: "min_accuracy_threshold st0 \<le> get_accuracy (metrics_of_run (Some [''accuracy'' \<mapsto> 0.95]))"
    by (simp_all add: st0_def sample_accuracy)
  have g: "True = (model_server_load w_ok = None \<and> deployment_commit_fault w_ok = None)"
    by (simp add: world_defs)
  from healthy_deploy_path [OF sample_infra_ok(1) sample_reach [OF w] m a t g, of "''abc123''"]
  have "run_stored ''p1''
          (RunSuccess ((metrics_of_run (Some [''accuracy'' \<mapsto> 0.95]))(''deployed'' \<mapsto> MBool True)))
          (snd (run_pipeline w_ok st0 ''p1'' 1 ''abc123'' ext0))"
    by simp
  then have 1: "map_option pl_status
     (db_pipelines (snd (run_pipeline w_ok st0 ''p1'' 1 ''abc123'' ext0)) ''p1'') = Some ''success''"
    by (auto simp: run_stored_def)
  have 2: "fst (run_pipeline w_first_publish_fails st0 ''p1'' 1 ''abc123'' ext0) =
     Inr (RunError ''Connection refused'') \<and>
   map_option pl_status
     (db_pipelines (snd (run_pipeline w_first_publish_fails st0 ''p1'' 1 ''abc123'' ext0)) ''p1'') =
     Some ''failed''"
    by (simp add: run_eval world_defs)
  show ?thesis using 1 2 by simp
qed

subsection \<open>Promotion\<close>

lemma p_start:
  "triple (\<lambda>s. db_deployments s = D)
     (and_then (now_utc w) (\<lambda>ts.
       update_pipeline_db w pid (Some ''running'') None None (Some ts) None))
     (post (\<lambda>_ s. db_deployments s = D) (\<lambda>_ _. True))"
  by (simp add: triple_def post_def io_unfold split: sum.splits)

lemma p_download:
  "triple (\<lambda>s. db_deployments s = D) (download_phase w pid rid)
     (post (\<lambda>nb s. db_deployments s = D \<and>
               (\<exists>repo. repositories w rid = Inr (Some repo) \<and> github_fetch w repo = Inr nb))
           (\<lambda>_ _. True))"
  by (auto simp: triple_def post_def download_phase_def io_unfold split: sum.splits option.splits)

lemma p_validate:
  "triple (\<lambda>s. db_deployments s = D \<and>
               (\<exists>repo. repositories w rid = Inr (Some repo) \<and> github_fetch w repo = Inr nb))
     (validate_phase w pid nb)
     (post (\<lambda>cfg s. db_deployments s = D \<and> run_config w rid cfg) (\<lambda>_ _. True))"
  by (auto simp: triple_def post_def validate_phase_def io_unfold run_config_def
      split: sum.splits option.splits)

lemma p_phase:
  "triple (\<lambda>s. db_deployments s = D \<and> C) (phase w pid n stt lg)
     (post (\<lambda>_ s. db_deployments s = D \<and> C) (\<lambda>_ _. True))"
  by (auto simp: triple_def post_def split: sum.splits)

lemma p_execute:
  "triple (\<lambda>s. db_deployments s = D \<and> C) (execute_phase w pid)
     (post (\<lambda>_ s. db_deployments s = D \<and> C) (\<lambda>_ _. True))"
  by (auto simp: triple_def post_def execute_phase_def split: sum.splits)

lemma p_register:
  "triple (\<lambda>s. db_deployments s = D \<and> C) (register_phase w pid)
     (post (\<lambda>(acc, mrid) s. db_deployments s = D \<and> C) (\<lambda>_ _. True))"
  by (cases "mlflow_register w")
     (auto simp: triple_def post_def register_phase_def io_unfold split: sum.splits)

lemma p_deploy:
  "triple (\<lambda>s. db_deployments s = D \<and> run_config w rid cfg)
     (deploy_phase w st pid cfg acc mrid)
     (post (\<lambda>_ s. deploy_state pid cfg D s \<and> run_config w rid cfg) (\<lambda>_ _. True))"
  by (cases "model_server_load w"; cases "deployment_commit_fault w")
     (auto simp: triple_def post_def deploy_phase_def save_deployment_def io_unfold
        deploy_state_def promoted_def split: sum.splits)

lemma p_mark_success:
  "triple (\<lambda>s. deploy_state pid cfg D s \<and> run_config w rid cfg) (mark_success w pid)
     (post (\<lambda>r s. \<exists>cfg. run_config w rid cfg \<and> deploy_state pid cfg D s \<and>
                (\<forall>m. r = RunSuccess m \<longrightarrow> m ''deployed'' = Some (MBool (l_deployed s))))
           (\<lambda>_ _. True))"
  by (auto simp: triple_def post_def mark_success_def io_unfold deploy_state_def split: sum.splits)

lemma p_try_body:
  "triple (\<lambda>s. db_deployments s = D) (try_body w st pid rid sha)
     (post (\<lambda>r s. \<exists>cfg. run_config w rid cfg \<and> deploy_state pid cfg D s \<and>
                (\<forall>m. r = RunSuccess m \<longrightarrow> m ''deployed'' = Some (MBool (l_deployed s))))
           (\<lambda>_ _. True))"
  by (rule try_body_triple [where
        ?A1.0 = "\<lambda>s. db_deployments s = D"
        and ?A2.0 = "\<lambda>nb s. db_deployments s = D \<and>
               (\<exists>repo. repositories w rid = Inr (Some repo) \<and> github_fetch w repo = Inr nb)"
        and ?A3.0 = "\<lambda>_ cfg s. db_deployments s = D \<and> run_config w rid cfg"
        and ?A4.0 = "\<lambda>_ cfg s. db_deployments s = D \<and> run_config w rid cfg"
        and ?A5.0 = "\<lambda>_ cfg s. db_deployments s = D \<and> run_config w rid cfg"
        and ?A6.0 = "\<lambda>_ cfg _ _ s. db_deployments s = D \<and> run_config w rid cfg"
        and ?A7.0 = "\<lambda>_ cfg s. deploy_state pid cfg D s \<and> run_config w rid cfg"])
     (rule p_start p_download p_validate p_phase p_execute p_register p_deploy p_mark_success
        | simp)+



lemma success_deploy_state:
  assumes "fst (run_pipeline w st pid rid sha ext) = Inr (RunSuccess m)"
  shows "\<exists>cfg. run_config w rid cfg \<and>
           deploy_state pid cfg (db_deployments ext) (snd (run_pipeline w st pid rid sha ext)) \<and>
           m ''deployed'' = Some (MBool (l_deployed (snd (run_pipeline w st pid rid sha ext))))"
proof -
  have "(\<lambda>r s. \<forall>m. r = Inr (RunSuccess m) \<longrightarrow>
           (\<exists>cfg. run_config w rid cfg \<and> deploy_state pid cfg (db_deployments ext) s \<and>
              m ''deployed'' = Some (MBool (l_deployed s))))
          (fst (run_pipeline w st pid rid sha ext)) (snd (run_pipeline w st pid rid sha ext))"
    by (rule run_pipeline_triple [OF p_try_body])
       (auto simp: triple_def start_state_def on_shutdown_not_success on_exception_not_success)
  then show ?thesis using assms by simp
qed

lemma no_active_after_deactivate:
  "filter (\<lambda>d. dp_model_name d = n \<and> dp_is_active d) (map (deactivate n) D) = []"
  by (induction D) (auto simp: deactivate_def)

lemma deactivate_other:
  "dp_model_name d \<noteq> n \<Longrightarrow> deactivate n d = d"
  by (simp add: deactivate_def)

lemma deactivate_name [simp]: "dp_model_name (deactivate n d) = dp_model_name d"
  by (simp add: deactivate_def)

lemma run_config_unique: "run_config w rid cfg \<Longrightarrow> run_config w rid cfg' \<Longrightarrow> cfg = cfg'"
  by (auto simp: run_config_def)


text \<open>
  C2. The deactivation of the active records of the model and the insertion of the new
  record are one update of the deployment table. After a run that returns with
  \<open>deployed = True\<close>, the table is the old one with the active records of that model name
  deactivated, followed by one new record: the new record is the only active record of
  the name, it carries the name and version extracted from the notebook and the id of
  the run, every earlier record of the name is inactive and the records of other names
  are untouched. After a run that returns with \<open>deployed = False\<close> the table is
  unchanged: no record is deactivated without the new one being inserted.
\<close>

theorem promotion_leaves_one_active_record:
  assumes "fst (run_pipeline w st pid rid sha ext) = Inr (RunSuccess m)"
  shows "(m ''deployed'' = Some (MBool True) \<longrightarrow>
           (\<exists>cfg new.
              run_config w rid cfg \<and>
              db_deployments (snd (run_pipeline w st pid rid sha ext)) =
                map (deactivate (cfg_model_name cfg)) (db_deployments ext) @ [new] \<and>
              dp_model_name new = cfg_model_name cfg \<and> dp_version new = cfg_version cfg \<and>
              dp_is_active new \<and> dp_pipeline_id new = Some pid \<and>
              filter (\<lambda>d. dp_model_name d = cfg_model_name cfg \<and> dp_is_active d)
                (db_deployments (snd (run_pipeline w st pid rid sha ext))) = [new] \<and>
              (\<forall>i < length (db_deployments ext).
                 dp_model_name (db_deployments ext ! i) = cfg_model_name cfg \<longrightarrow>
                 \<not> dp_is_active (db_deployments (snd (run_pipeline w st pid rid sha ext)) ! i)) \<and>
              (\<forall>i < length (db_deployments ext).
                 dp_model_name (db_deployments ext ! i) \<noteq> cfg_model_name cfg \<longrightarrow>
                 db_deployments (snd (run_pipeline w st pid rid sha ext)) ! i = db_deployments ext ! i))) \<and>
         (m ''deployed'' \<noteq> Some (MBool True) \<longrightarrow>
            db_deployments (snd (run_pipeline w st pid rid sha ext)) = db_deployments ext)"
proof -
  let ?s = "snd (run_pipeline w st pid rid sha ext)"
  let ?D = "db_deployments ext"
  from success_deploy_state [OF assms] obtain cfg where
    rc: "run_config w rid cfg" and ds: "deploy_state pid cfg ?D ?s"
    and md: "m ''deployed'' = Some (MBool (l_deployed ?s))"
    by blast
  show ?thesis
  proof (cases "l_deployed ?s")
    case False
    then show ?thesis using ds md by (simp add: deploy_state_def)
  next
    case True
    then obtain new where
      tbl: "db_deployments ?s = map (deactivate (cfg_model_name cfg)) ?D @ [new]"
      and nm: "dp_model_name new = cfg_model_name cfg" and vr: "dp_version new = cfg_version cfg"
      and ac: "dp_is_active new" and pp: "dp_pipeline_id new = Some pid"
      using ds by (auto simp: deploy_state_def promoted_def)
    have one: "filter (\<lambda>d. dp_model_name d = cfg_model_name cfg \<and> dp_is_active d)
                 (db_deployments ?s) = [new]"
      using nm ac by (simp add: tbl no_active_after_deactivate)
    have prior: "\<forall>i < length ?D. dp_model_name (?D ! i) = cfg_model_name cfg \<longrightarrow>
                   \<not> dp_is_active (db_deployments ?s ! i)"
      by (simp add: tbl nth_append deactivate_def)
    have other: "\<forall>i < length ?D. dp_model_name (?D ! i) \<noteq> cfg_model_name cfg \<longrightarrow>
                   db_deployments ?s ! i = ?D ! i"
      by (simp add: tbl nth_append deactivate_other)
    have "\<exists>cfg new.
              run_config w rid cfg \<and>
              db_deployments ?s = map (deactivate (cfg_model_name cfg)) ?D @ [new] \<and>
              dp_model_name new = cfg_model_name cfg \<and> dp_version new = cfg_version cfg \<and>
              dp_is_active new \<and> dp_pipeline_id new = Some pid \<and>
              filter (\<lambda>d. dp_model_name d = cfg_model_name cfg \<and> dp_is_active d)
                (db_deployments ?s) = [new] \<and>
              (\<forall>i < length ?D.
                 dp_model_name (?D ! i) = cfg_model_name cfg \<longrightarrow>
                 \<not> dp_is_active (db_deployments ?s ! i)) \<and>
              (\<forall>i < length ?D.
                 dp_model_name (?D ! i) \<noteq> cfg_model_name cfg \<longrightarrow>
                 db_deployments ?s ! i = ?D ! i)"
      by (intro exI [of _ cfg] exI [of _ new] conjI rc tbl nm vr ac pp one prior other)
    moreover have "m ''deployed'' = Some (MBool True)" using True md by simp
    ultimately show ?thesis by simp
  qed
qed


theorem promotion_witness:
  "fst (run_pipeline w_ok st0 ''p1'' 1 ''abc123'' ext0) =
     Inr (RunSuccess ((metrics_of_run (Some [''accuracy'' \<mapsto> 0.95]))(''deployed'' \<mapsto> MBool True))) \<and>
   db_deployments ext0 = [old_iris, other_model] \<and>
   map dp_model_name (db_deployments (snd (run_pipeline w_ok st0 ''p1'' 1 ''abc123'' ext0))) =
     [''iris-classifier'', ''wine'', ''iris-classifier''] \<and>
   map dp_is_active (db_deployments (snd (run_pipeline w_ok st0 ''p1'' 1 ''abc123'' ext0))) =
     [False, True, True] \<and>
   map dp_pipeline_id (db_deployments (snd (run_pipeline w_ok st0 ''p1'' 1 ''abc123'' ext0))) =
     [Some ''p0'', Some ''p0'', Some ''p1'']"
proof -
  let ?m = "(metrics_of_run (Some [''accuracy'' \<mapsto> 0.95]))(''deployed'' \<mapsto> MBool True)"
  have w: "w_ok = w_ok \<or> w_ok = w_load_fails \<or> w_ok = w_low_accuracy" by simp
  have m: "mlflow_register w_ok = RegisterOk (Some [''accuracy'' \<mapsto> 0.95]) ''run1''"
    by (simp add: world_defs)
  have a: "auto_deploy_on_success st0"
    and t: "min_accuracy_threshold st0 \<le> get_accuracy (metrics_of_run (Some [''accuracy'' \<mapsto> 0.95]))"
    by (simp_all add: st0_def sample_accuracy)
  have g: "True = (model_server_load w_ok = None \<and> deployment_commit_fault w_ok = None)"
    by (simp add: world_defs)
  from healthy_deploy_path [OF sample_infra_ok(1) sample_reach [OF w] m a t g, of "''abc123''"]
  have r: "fst (run_pipeline w_ok st0 ''p1'' 1 ''abc123'' ext0) = Inr (RunSuccess ?m)"
    by simp
  have d: "?m ''deployed'' = Some (MBool True)" by simp
  from promotion_leaves_one_active_record [OF r, THEN conjunct1, rule_format, OF d]
  obtain cfg new where
    rc: "run_config w_ok 1 cfg"
    and tbl: "db_deployments (snd (run_pipeline w_ok st0 ''p1'' 1 ''abc123'' ext0)) =
                map (deactivate (cfg_model_name cfg)) (db_deployments ext0) @ [new]"
    and nm: "dp_model_name new = cfg_model_name cfg"
    and ac: "dp_is_active new" and pp: "dp_pipeline_id new = Some ''p1''"
    by blast
  have "run_config w_ok 1 \<lparr>cfg_model_name = ''iris-classifier'', cfg_version = ''1''\<rparr>"
    using sample_reach [OF w] unfolding run_config_def by blast
  then have c: "cfg = \<lparr>cfg_model_name = ''iris-classifier'', cfg_version = ''1''\<rparr>"
    using rc by (rule run_config_unique [rotated])
  have e: "db_deployments ext0 = [old_iris, other_model]" by (simp add: ext0_def)
  have 1: "map dp_model_name (db_deployments (snd (run_pipeline w_ok st0 ''p1'' 1 ''abc123'' ext0))) =
             [''iris-classifier'', ''wine'', ''iris-classifier'']"
    unfolding tbl c e using nm c by (simp add: deactivate_def old_iris_def other_model_def)
  have 2: "map dp_is_active (db_deployments (snd (run_pipeline w_ok st0 ''p1'' 1 ''abc123'' ext0))) =
             [False, True, True]"
    unfolding tbl c e using ac by (simp add: deactivate_def old_iris_def other_model_def)
  have 3: "map dp_pipeline_id (db_deployments (snd (run_pipeline w_ok st0 ''p1'' 1 ''abc123'' ext0))) =
             [Some ''p0'', Some ''p0'', Some ''p1'']"
    unfolding tbl c e using pp by (simp add: deactivate_def old_iris_def other_model_def)
  show ?thesis
    using r e 1 2 3 by (intro conjI)
qed

end
